theory Spec2Isabelle
  imports Main "HOL-Library.Word"
begin

section \<open>JavaScript values\<close>

text \<open>
  A JavaScript string is a sequence of 16-bit code units, a \<open>Uint8Array\<close> a sequence of
  bytes. \<open>js\<close> writes an ASCII literal of the source as such a string.
\<close>

type_synonym byte = "8 word"
type_synonym code_unit = "16 word"
type_synonym js_string = "code_unit list"

definition js :: "string \<Rightarrow> js_string" where
  "js s = map of_char s"

definition slash :: code_unit where
  "slash = 0x2F"

text \<open>
  Values that are thrown. \<open>TypeError\<close>, \<open>RangeError\<close> and \<open>DOMException\<close> are raised by
  the browser; \<open>Error\<close> is \<open>new Error(message)\<close> of the source. All of them are instances
  of \<open>Error\<close>, so \<open>error instanceof Error ? error.message : String(error)\<close> reads
  \<open>message\<close>.
\<close>

datatype js_error =
    Error js_string
  | TypeError js_string
  | RangeError js_string
  | DOMException string js_string

fun message :: "js_error \<Rightarrow> js_string" where
  "message (Error m) = m"
| "message (TypeError m) = m"
| "message (RangeError m) = m"
| "message (DOMException n m) = m"

text \<open>
  What the model takes from the browser it runs in: the three facts \<open>isOPFSSupported\<close>
  tests, whether \<open>navigator.storage.getDirectory()\<close> rejects, the message text the
  browser gives an exception it raises (by the exception's name), the characters other
  than \<open>/\<close> that the platform treats as path separators, its decoders for the
  encodings other than UTF-8 (by the encoding's name), and the order in which it
  enumerates a directory: the rank it gives each name among the names of the directory.
\<close>

record host =
  has_navigator :: bool
  has_storage :: bool
  has_getDirectory :: bool
  getDirectory_error :: "js_error option"
  host_message :: "string \<Rightarrow> js_string"
  platform_separator :: "code_unit \<Rightarrow> bool"
  legacy_decode :: "string \<Rightarrow> byte list \<Rightarrow> js_string"
  enumeration_rank :: "js_string list \<Rightarrow> js_string \<Rightarrow> nat"

subsection \<open>\<open>String.prototype.split\<close>, \<open>Array.prototype.join\<close>, \<open>Array.prototype.pop\<close>\<close>

text \<open>\<open>s.split(sep)\<close> for a one-unit separator: \<open>''.split('/')\<close> is \<open>['']\<close>.\<close>

fun split :: "code_unit \<Rightarrow> js_string \<Rightarrow> js_string list" where
  "split sep [] = [[]]"
| "split sep (c # cs) =
     (let r = split sep cs in if c = sep then [] # r else (c # hd r) # tl r)"

fun join :: "js_string \<Rightarrow> js_string list \<Rightarrow> js_string" where
  "join sep [] = []"
| "join sep [p] = p"
| "join sep (p # q # ps) = p @ sep @ join sep (q # ps)"

text \<open>\<open>xs.pop()\<close>: the removed last element (\<open>undefined\<close> on an empty array) and the array left.\<close>

definition pop :: "'a list \<Rightarrow> 'a option \<times> 'a list" where
  "pop xs = (if xs = [] then (None, []) else (Some (last xs), butlast xs))"

text \<open>\<open>x || d\<close> for \<open>x\<close> a string or \<open>undefined\<close>: the empty string is falsy.\<close>

definition or_else :: "js_string option \<Rightarrow> js_string \<Rightarrow> js_string" where
  "or_else x d = (case x of None \<Rightarrow> d | Some v \<Rightarrow> if v = [] then d else v)"

section \<open>Text encodings of the host\<close>

text \<open>
  \<open>TextEncoder\<close>, \<open>TextDecoder\<close>, \<open>Blob.text\<close>, \<open>atob\<close> and \<open>btoa\<close> belong to the browser.
  They are modelled after the Encoding Standard and the HTML Standard. Scalar values are
  natural numbers.
\<close>

definition is_high_surrogate :: "code_unit \<Rightarrow> bool" where
  "is_high_surrogate u = (0xD800 \<le> unat u \<and> unat u \<le> 0xDBFF)"

definition is_low_surrogate :: "code_unit \<Rightarrow> bool" where
  "is_low_surrogate u = (0xDC00 \<le> unat u \<and> unat u \<le> 0xDFFF)"

definition lone :: "code_unit \<Rightarrow> nat" where
  "lone u = (if is_high_surrogate u \<or> is_low_surrogate u then 0xFFFD else unat u)"

text \<open>
  Conversion of a string to scalar values (a \<open>USVString\<close>): a surrogate pair is one
  scalar value, a surrogate outside a pair becomes U+FFFD.
\<close>

fun to_scalars :: "js_string \<Rightarrow> nat list" where
  "to_scalars [] = []"
| "to_scalars [u] = [lone u]"
| "to_scalars (u # v # r) =
     (if is_high_surrogate u \<and> is_low_surrogate v
      then (0x10000 + (unat u - 0xD800) * 0x400 + (unat v - 0xDC00)) # to_scalars r
      else lone u # to_scalars (v # r))"

text \<open>The string of a sequence of code points: UTF-16.\<close>

definition utf16_units :: "nat \<Rightarrow> js_string" where
  "utf16_units c =
     (if c < 0x10000 then [of_nat c]
      else [of_nat (0xD800 + (c - 0x10000) div 0x400),
            of_nat (0xDC00 + (c - 0x10000) mod 0x400)])"

definition from_scalars :: "nat list \<Rightarrow> js_string" where
  "from_scalars cs = concat (map utf16_units cs)"

text \<open>A string is well-formed Unicode when every surrogate stands in a pair.\<close>

fun well_formed :: "js_string \<Rightarrow> bool" where
  "well_formed [] = True"
| "well_formed [u] = (\<not> is_high_surrogate u \<and> \<not> is_low_surrogate u)"
| "well_formed (u # v # r) =
     (if is_high_surrogate u then is_low_surrogate v \<and> well_formed r
      else \<not> is_low_surrogate u \<and> well_formed (v # r))"

subsection \<open>UTF-8\<close>

text \<open>The UTF-8 encoder: the bytes of one scalar value.\<close>

definition utf8_bytes :: "nat \<Rightarrow> byte list" where
  "utf8_bytes c =
     (if c < 0x80 then [of_nat c]
      else if c < 0x800 then [of_nat (0xC0 + c div 0x40), of_nat (0x80 + c mod 0x40)]
      else if c < 0x10000 then
        [of_nat (0xE0 + c div 0x1000), of_nat (0x80 + c div 0x40 mod 0x40),
         of_nat (0x80 + c mod 0x40)]
      else
        [of_nat (0xF0 + c div 0x40000), of_nat (0x80 + c div 0x1000 mod 0x40),
         of_nat (0x80 + c div 0x40 mod 0x40), of_nat (0x80 + c mod 0x40)])"

definition utf8_encode :: "nat list \<Rightarrow> byte list" where
  "utf8_encode cs = concat (map utf8_bytes cs)"

text \<open>\<open>new TextEncoder().encode(s)\<close>.\<close>

definition TextEncoder_encode :: "js_string \<Rightarrow> byte list" where
  "TextEncoder_encode s = utf8_encode (to_scalars s)"

text \<open>
  The UTF-8 decoder of the Encoding Standard, in its replacement mode. What a byte does
  when no sequence is open: it is a code point, it opens a sequence (the bits it
  carries, the number of bytes needed, the bounds of the next byte), or it is an error.
\<close>

datatype lead = Ascii nat | Lead nat nat nat nat | Invalid

definition utf8_lead :: "nat \<Rightarrow> lead" where
  "utf8_lead b =
     (if b \<le> 0x7F then Ascii b
      else if 0xC2 \<le> b \<and> b \<le> 0xDF then Lead (b mod 0x20) 1 0x80 0xBF
      else if 0xE0 \<le> b \<and> b \<le> 0xEF then
        Lead (b mod 0x10) 2 (if b = 0xE0 then 0xA0 else 0x80) (if b = 0xED then 0x9F else 0xBF)
      else if 0xF0 \<le> b \<and> b \<le> 0xF4 then
        Lead (b mod 8) 3 (if b = 0xF0 then 0x90 else 0x80) (if b = 0xF4 then 0x8F else 0xBF)
      else Invalid)"

text \<open>
  The decoder's state is the code point so far, the bytes seen, the bytes needed and
  the bounds of the next byte. A byte outside the bounds ends the open sequence with
  U+FFFD and is read again with no sequence open; the end of the input inside a
  sequence gives U+FFFD.
\<close>

fun utf8_decoder :: "nat \<Rightarrow> nat \<Rightarrow> nat \<Rightarrow> nat \<Rightarrow> nat \<Rightarrow> byte list \<Rightarrow> nat list" where
  "utf8_decoder cp seen needed lo hi [] = (if needed \<noteq> 0 then [0xFFFD] else [])"
| "utf8_decoder cp seen needed lo hi (b # bs) =
     (if needed = 0 then
        (case utf8_lead (unat b) of
           Ascii c \<Rightarrow> c # utf8_decoder 0 0 0 0x80 0xBF bs
         | Lead c n l u \<Rightarrow> utf8_decoder c 0 n l u bs
         | Invalid \<Rightarrow> 0xFFFD # utf8_decoder 0 0 0 0x80 0xBF bs)
      else if unat b < lo \<or> hi < unat b then
        0xFFFD #
        (case utf8_lead (unat b) of
           Ascii c \<Rightarrow> c # utf8_decoder 0 0 0 0x80 0xBF bs
         | Lead c n l u \<Rightarrow> utf8_decoder c 0 n l u bs
         | Invalid \<Rightarrow> 0xFFFD # utf8_decoder 0 0 0 0x80 0xBF bs)
      else
        (let cp' = cp * 0x40 + unat b mod 0x40 in
         if seen + 1 \<noteq> needed then utf8_decoder cp' (seen + 1) needed 0x80 0xBF bs
         else cp' # utf8_decoder 0 0 0 0x80 0xBF bs))"

text \<open>
  A decoder that does not ignore the byte order mark drops U+FEFF when it is the first
  code point of the output.
\<close>

definition strip_bom :: "nat list \<Rightarrow> nat list" where
  "strip_bom cs = (case cs of [] \<Rightarrow> [] | c # r \<Rightarrow> if c = 0xFEFF then r else cs)"

text \<open>\<open>new TextDecoder().decode(bytes)\<close>, and \<open>Blob.text()\<close>: UTF-8, not fatal, BOM not ignored.\<close>

definition utf8_decode :: "byte list \<Rightarrow> js_string" where
  "utf8_decode bs = from_scalars (strip_bom (utf8_decoder 0 0 0 0x80 0xBF bs))"

subsection \<open>\<open>TextDecoder\<close> with a label\<close>

text \<open>
  \<open>new TextDecoder(label)\<close> looks the label up after removing leading and trailing ASCII
  whitespace, ASCII case-insensitively, among the labels of the Encoding Standard. An
  unknown label, and a label of the replacement encoding, raise \<open>RangeError\<close>.
\<close>

definition ascii_whitespace :: "code_unit \<Rightarrow> bool" where
  "ascii_whitespace u = (u = 0x09 \<or> u = 0x0A \<or> u = 0x0C \<or> u = 0x0D \<or> u = 0x20)"

definition ascii_lower :: "code_unit \<Rightarrow> code_unit" where
  "ascii_lower u = (if 0x41 \<le> unat u \<and> unat u \<le> 0x5A then u + 0x20 else u)"

definition trim :: "js_string \<Rightarrow> js_string" where
  "trim s = rev (dropWhile ascii_whitespace (rev (dropWhile ascii_whitespace s)))"

datatype text_encoding = UTF_8 | Legacy string

definition utf8_labels :: "string list" where
  "utf8_labels =
     [''unicode-1-1-utf-8'', ''unicode11utf8'', ''unicode20utf8'', ''utf-8'', ''utf8'',
      ''x-unicode20utf8'']"

definition legacy_labels :: "(string \<times> string list) list" where
  "legacy_labels =
   [(''IBM866'', [''866'', ''cp866'', ''csibm866'', ''ibm866'']),
    (''ISO-8859-2'', [''csisolatin2'', ''iso-8859-2'', ''iso-ir-101'', ''iso8859-2'',
       ''iso88592'', ''iso_8859-2'', ''iso_8859-2:1987'', ''l2'', ''latin2'']),
    (''ISO-8859-3'', [''csisolatin3'', ''iso-8859-3'', ''iso-ir-109'', ''iso8859-3'',
       ''iso88593'', ''iso_8859-3'', ''iso_8859-3:1988'', ''l3'', ''latin3'']),
    (''ISO-8859-4'', [''csisolatin4'', ''iso-8859-4'', ''iso-ir-110'', ''iso8859-4'',
       ''iso88594'', ''iso_8859-4'', ''iso_8859-4:1988'', ''l4'', ''latin4'']),
    (''ISO-8859-5'', [''csisolatincyrillic'', ''cyrillic'', ''iso-8859-5'', ''iso-ir-144'',
       ''iso8859-5'', ''iso88595'', ''iso_8859-5'', ''iso_8859-5:1988'']),
    (''ISO-8859-6'', [''arabic'', ''asmo-708'', ''csiso88596e'', ''csiso88596i'',
       ''csisolatinarabic'', ''ecma-114'', ''iso-8859-6'', ''iso-8859-6-e'',
       ''iso-8859-6-i'', ''iso-ir-127'', ''iso8859-6'', ''iso88596'', ''iso_8859-6'',
       ''iso_8859-6:1987'']),
    (''ISO-8859-7'', [''csisolatingreek'', ''ecma-118'', ''elot_928'', ''greek'', ''greek8'',
       ''iso-8859-7'', ''iso-ir-126'', ''iso8859-7'', ''iso88597'', ''iso_8859-7'',
       ''iso_8859-7:1987'', ''sun_eu_greek'']),
    (''ISO-8859-8'', [''csiso88598e'', ''csisolatinhebrew'', ''hebrew'', ''iso-8859-8'',
       ''iso-8859-8-e'', ''iso-ir-138'', ''iso8859-8'', ''iso88598'', ''iso_8859-8'',
       ''iso_8859-8:1988'', ''visual'']),
    (''ISO-8859-8-I'', [''csiso88598i'', ''iso-8859-8-i'', ''logical'']),
    (''ISO-8859-10'', [''csisolatin6'', ''iso-8859-10'', ''iso-ir-157'', ''iso8859-10'',
       ''iso885910'', ''l6'', ''latin6'']),
    (''ISO-8859-13'', [''iso-8859-13'', ''iso8859-13'', ''iso885913'']),
    (''ISO-8859-14'', [''iso-8859-14'', ''iso8859-14'', ''iso885914'']),
    (''ISO-8859-15'', [''csisolatin9'', ''iso-8859-15'', ''iso8859-15'', ''iso885915'',
       ''iso_8859-15'', ''l9'']),
    (''ISO-8859-16'', [''iso-8859-16'']),
    (''KOI8-R'', [''cskoi8r'', ''koi'', ''koi8'', ''koi8-r'', ''koi8_r'']),
    (''KOI8-U'', [''koi8-ru'', ''koi8-u'']),
    (''macintosh'', [''csmacintosh'', ''mac'', ''macintosh'', ''x-mac-roman'']),
    (''windows-874'', [''dos-874'', ''iso-8859-11'', ''iso8859-11'', ''iso885911'',
       ''tis-620'', ''windows-874'']),
    (''windows-1250'', [''cp1250'', ''windows-1250'', ''x-cp1250'']),
    (''windows-1251'', [''cp1251'', ''windows-1251'', ''x-cp1251'']),
    (''windows-1252'', [''ansi_x3.4-1968'', ''ascii'', ''cp1252'', ''cp819'', ''csisolatin1'',
       ''ibm819'', ''iso-8859-1'', ''iso-ir-100'', ''iso8859-1'', ''iso88591'',
       ''iso_8859-1'', ''iso_8859-1:1987'', ''l1'', ''latin1'', ''us-ascii'',
       ''windows-1252'', ''x-cp1252'']),
    (''windows-1253'', [''cp1253'', ''windows-1253'', ''x-cp1253'']),
    (''windows-1254'', [''cp1254'', ''csisolatin5'', ''iso-8859-9'', ''iso-ir-148'',
       ''iso8859-9'', ''iso88599'', ''iso_8859-9'', ''iso_8859-9:1989'', ''l5'', ''latin5'',
       ''windows-1254'', ''x-cp1254'']),
    (''windows-1255'', [''cp1255'', ''windows-1255'', ''x-cp1255'']),
    (''windows-1256'', [''cp1256'', ''windows-1256'', ''x-cp1256'']),
    (''windows-1257'', [''cp1257'', ''windows-1257'', ''x-cp1257'']),
    (''windows-1258'', [''cp1258'', ''windows-1258'', ''x-cp1258'']),
    (''x-mac-cyrillic'', [''x-mac-cyrillic'', ''x-mac-ukrainian'']),
    (''GBK'', [''chinese'', ''csgb2312'', ''csiso58gb231280'', ''gb2312'', ''gb_2312'',
       ''gb_2312-80'', ''gbk'', ''iso-ir-58'', ''x-gbk'']),
    (''gb18030'', [''gb18030'']),
    (''Big5'', [''big5'', ''big5-hkscs'', ''cn-big5'', ''csbig5'', ''x-x-big5'']),
    (''EUC-JP'', [''cseucpkdfmtjapanese'', ''euc-jp'', ''x-euc-jp'']),
    (''ISO-2022-JP'', [''csiso2022jp'', ''iso-2022-jp'']),
    (''Shift_JIS'', [''csshiftjis'', ''ms932'', ''ms_kanji'', ''shift-jis'', ''shift_jis'',
       ''sjis'', ''windows-31j'', ''x-sjis'']),
    (''EUC-KR'', [''cseuckr'', ''csksc56011987'', ''euc-kr'', ''iso-ir-149'', ''korean'',
       ''ks_c_5601-1987'', ''ks_c_5601-1989'', ''ksc5601'', ''ksc_5601'', ''windows-949'']),
    (''replacement'', [''csiso2022kr'', ''hz-gb-2312'', ''iso-2022-cn'', ''iso-2022-cn-ext'',
       ''iso-2022-kr'', ''replacement'']),
    (''UTF-16BE'', [''unicodefffe'', ''utf-16be'']),
    (''UTF-16LE'', [''csunicode'', ''iso-10646-ucs-2'', ''ucs-2'', ''unicode'',
       ''unicodefeff'', ''utf-16'', ''utf-16le'']),
    (''x-user-defined'', [''x-user-defined''])]"

definition get_an_encoding :: "js_string \<Rightarrow> text_encoding option" where
  "get_an_encoding label =
     (let l = map ascii_lower (trim label) in
      if l \<in> set (map js utf8_labels) then Some UTF_8
      else (case find (\<lambda>row. l \<in> set (map js (snd row))) legacy_labels of
              None \<Rightarrow> None
            | Some row \<Rightarrow> Some (Legacy (fst row))))"

definition TextDecoder_new :: "host \<Rightarrow> js_string \<Rightarrow> js_error + text_encoding" where
  "TextDecoder_new h label =
     (case get_an_encoding label of
        None \<Rightarrow> Inl (RangeError (host_message h ''RangeError''))
      | Some enc \<Rightarrow>
          if enc = Legacy ''replacement'' then Inl (RangeError (host_message h ''RangeError''))
          else Inr enc)"

definition TextDecoder_decode :: "host \<Rightarrow> text_encoding \<Rightarrow> byte list \<Rightarrow> js_string" where
  "TextDecoder_decode h enc bs =
     (case enc of UTF_8 \<Rightarrow> utf8_decode bs | Legacy n \<Rightarrow> legacy_decode h n bs)"

subsection \<open>Base64: \<open>btoa\<close> and \<open>atob\<close>\<close>

definition base64_alphabet :: js_string where
  "base64_alphabet = js ''ABCDEFGHIJKLMNOPQRSTUVWXYZabcdefghijklmnopqrstuvwxyz0123456789+/''"

definition sextet :: "nat \<Rightarrow> code_unit" where
  "sextet i = base64_alphabet ! (i mod 0x40)"

definition pad :: code_unit where
  "pad = 0x3D"

fun base64_encode :: "byte list \<Rightarrow> js_string" where
  "base64_encode (a # b # c # r) =
     [sextet (unat a div 4), sextet (unat a mod 4 * 0x10 + unat b div 0x10),
      sextet (unat b mod 0x10 * 4 + unat c div 0x40), sextet (unat c mod 0x40)]
     @ base64_encode r"
| "base64_encode [a, b] =
     [sextet (unat a div 4), sextet (unat a mod 4 * 0x10 + unat b div 0x10),
      sextet (unat b mod 0x10 * 4), pad]"
| "base64_encode [a] = [sextet (unat a div 4), sextet (unat a mod 4 * 0x10), pad, pad]"
| "base64_encode [] = []"

text \<open>\<open>btoa(s)\<close>: a code unit above U+00FF raises \<open>InvalidCharacterError\<close>.\<close>

definition btoa :: "host \<Rightarrow> js_string \<Rightarrow> js_error + js_string" where
  "btoa h s =
     (if list_ex (\<lambda>u. 0xFF < unat u) s
      then Inl (DOMException ''InvalidCharacterError'' (host_message h ''InvalidCharacterError''))
      else Inr (base64_encode (map ucast s)))"

definition sextet_of :: "code_unit \<Rightarrow> nat option" where
  "sextet_of u =
     (let n = unat u in
      if 0x41 \<le> n \<and> n \<le> 0x5A then Some (n - 0x41)
      else if 0x61 \<le> n \<and> n \<le> 0x7A then Some (n - 0x61 + 26)
      else if 0x30 \<le> n \<and> n \<le> 0x39 then Some (n - 0x30 + 52)
      else if n = 0x2B then Some 62
      else if n = 0x2F then Some 63
      else None)"

definition strip_padding :: "js_string \<Rightarrow> js_string" where
  "strip_padding d =
     (if length d mod 4 = 0 \<and> d \<noteq> [] \<and> last d = pad then
        (let d1 = butlast d in if d1 \<noteq> [] \<and> last d1 = pad then butlast d1 else d1)
      else d)"

fun decode_sextets :: "nat list \<Rightarrow> byte list" where
  "decode_sextets (a # b # c # d # r) =
     [of_nat (a * 4 + b div 0x10), of_nat (b mod 0x10 * 0x10 + c div 4),
      of_nat (c mod 4 * 0x40 + d)] @ decode_sextets r"
| "decode_sextets [a, b, c] = [of_nat (a * 4 + b div 0x10), of_nat (b mod 0x10 * 0x10 + c div 4)]"
| "decode_sextets [a, b] = [of_nat (a * 4 + b div 0x10)]"
| "decode_sextets [a] = []"
| "decode_sextets [] = []"

text \<open>The forgiving-base64 decode of the Infra Standard.\<close>

definition forgiving_base64_decode :: "js_string \<Rightarrow> byte list option" where
  "forgiving_base64_decode s =
     (let d = strip_padding (filter (\<lambda>u. \<not> ascii_whitespace u) s) in
      if length d mod 4 = 1 then None
      else map_option decode_sextets (those (map sextet_of d)))"

text \<open>\<open>atob(s)\<close>: the decoded bytes as a string of code units below 256.\<close>

definition atob :: "host \<Rightarrow> js_string \<Rightarrow> js_error + js_string" where
  "atob h s =
     (case forgiving_base64_decode s of
        None \<Rightarrow>
          Inl (DOMException ''InvalidCharacterError'' (host_message h ''InvalidCharacterError''))
      | Some bs \<Rightarrow> Inr (map ucast bs))"

section \<open>The two \<open>Buffer\<close> modules\<close>

text \<open>
  What \<open>Buffer.from\<close> is given: a string, an \<open>ArrayBuffer\<close>, a \<open>Uint8Array\<close>, or an
  array-like object of integers (stored modulo 256).
\<close>

datatype buffer_source =
    Text js_string
  | ArrayBuffer "byte list"
  | Uint8Array "byte list"
  | ArrayLike "int list"

subsection \<open>The object \<open>Buffer\<close> with \<open>from\<close> and \<open>alloc\<close>\<close>

text \<open>
  Every branch of \<open>from\<close>, and \<open>alloc\<close>, attaches the same \<open>toString\<close>, whose parameter
  defaults to \<open>'utf8'\<close>: \<open>'base64'\<close> gives \<open>btoa(String.fromCharCode(...bytes))\<close>, every
  other value \<open>new TextDecoder().decode(this)\<close>. An encoding that was not passed is \<open>None\<close>.
\<close>

definition Buffer_toString :: "host \<Rightarrow> byte list \<Rightarrow> js_string option \<Rightarrow> js_error + js_string" where
  "Buffer_toString h this encoding =
     (let encoding = (case encoding of None \<Rightarrow> js ''utf8'' | Some e \<Rightarrow> e) in
      if encoding = js ''base64'' then btoa h (map ucast this)
      else Inr (utf8_decode this))"

definition Buffer_from :: "host \<Rightarrow> buffer_source \<Rightarrow> js_string option \<Rightarrow> js_error + byte list" where
  "Buffer_from h data encoding =
     (case data of
        Text s \<Rightarrow>
          if encoding = Some (js ''base64'') then
            (case atob h s of
               Inl e \<Rightarrow> Inl e
             | Inr binaryString \<Rightarrow> Inr (map ucast binaryString))
          else Inr (TextEncoder_encode s)
      | ArrayBuffer bs \<Rightarrow> Inr bs
      | Uint8Array bs \<Rightarrow> Inr bs
      | ArrayLike ns \<Rightarrow> Inr (map of_int ns))"

definition Buffer_alloc :: "nat \<Rightarrow> byte list" where
  "Buffer_alloc n = replicate n 0"

subsection \<open>The class \<open>Buffer extends Uint8Array\<close>\<close>

text \<open>
  \<open>from\<close> encodes a string as UTF-8 whatever the encoding argument; \<open>toString\<close> hands
  \<open>encoding || 'utf-8'\<close> to the \<open>TextDecoder\<close> constructor.
\<close>

definition Buffer_class_from :: "buffer_source \<Rightarrow> js_string option \<Rightarrow> byte list" where
  "Buffer_class_from data encoding =
     (case data of
        Text s \<Rightarrow> TextEncoder_encode s
      | ArrayBuffer bs \<Rightarrow> bs
      | Uint8Array bs \<Rightarrow> bs
      | ArrayLike ns \<Rightarrow> map of_int ns)"

definition Buffer_class_alloc :: "nat \<Rightarrow> byte list" where
  "Buffer_class_alloc n = replicate n 0"

definition Buffer_class_toString ::
  "host \<Rightarrow> byte list \<Rightarrow> js_string option \<Rightarrow> js_error + js_string" where
  "Buffer_class_toString h this encoding =
     (case TextDecoder_new h (or_else encoding (js ''utf-8'')) of
        Inl e \<Rightarrow> Inl e
      | Inr decoder \<Rightarrow> Inr (TextDecoder_decode h decoder this))"

text \<open>\<open>concat\<close>: \<open>result.set(buf, offset)\<close> for each buffer in turn, into \<open>alloc(totalLength)\<close>.\<close>

definition set_at :: "byte list \<Rightarrow> byte list \<Rightarrow> nat \<Rightarrow> byte list" where
  "set_at result buf offset = take offset result @ buf @ drop (offset + length buf) result"

fun concat_loop :: "byte list \<Rightarrow> nat \<Rightarrow> byte list list \<Rightarrow> byte list" where
  "concat_loop result offset [] = result"
| "concat_loop result offset (buf # rest) =
     concat_loop (set_at result buf offset) (offset + length buf) rest"

definition Buffer_class_concat :: "byte list list \<Rightarrow> byte list" where
  "Buffer_class_concat list =
     (let totalLength = fold (\<lambda>buf acc. acc + length buf) list 0 in
      concat_loop (Buffer_class_alloc totalLength) 0 list)"

text \<open>
  \<open>fs\<close> imports \<open>Buffer\<close> from \<open>./buffer\<close>; either module can stand behind that name, so
  the operations take the module as a parameter.
\<close>

datatype buffer_module = Object_module | Class_module

definition module_from ::
  "host \<Rightarrow> buffer_module \<Rightarrow> buffer_source \<Rightarrow> js_string option \<Rightarrow> js_error + byte list" where
  "module_from h m data encoding =
     (case m of
        Object_module \<Rightarrow> Buffer_from h data encoding
      | Class_module \<Rightarrow> Inr (Buffer_class_from data encoding))"

definition module_toString ::
  "host \<Rightarrow> buffer_module \<Rightarrow> byte list \<Rightarrow> js_string option \<Rightarrow> js_error + js_string" where
  "module_toString h m this encoding =
     (case m of
        Object_module \<Rightarrow> Buffer_toString h this encoding
      | Class_module \<Rightarrow> Buffer_class_toString h this encoding)"

section \<open>The origin private file system\<close>

text \<open>
  The browser's storage is a tree of named entries that is reached only through
  handles. A handle is the location of its entry, the names from the root down; the root
  is \<open>[]\<close> and always exists. The storage is the table of the entries below the root.
  The position of an entry in the table means nothing to the program: \<open>values()\<close>
  enumerates a directory in an order of the browser's own. The state of the program is
  that table and the module variable \<open>rootDirectory\<close> of \<open>fs-utils\<close>.
\<close>

type_synonym path = "js_string list"

datatype entry = Directory | File "byte list"

record state =
  rootDirectory :: "path option"
  entries :: "(path \<times> entry) list"

text \<open>
  An asynchronous function run to its end: the state it leaves, and the value its
  promise resolves with (\<open>Inr\<close>) or rejects with (\<open>Inl\<close>).
\<close>

type_synonym 'a task = "state \<Rightarrow> (js_error + 'a) \<times> state"

definition resolve :: "'a \<Rightarrow> 'a task" where
  "resolve x = (\<lambda>s. (Inr x, s))"

definition reject :: "js_error \<Rightarrow> 'a task" where
  "reject e = (\<lambda>s. (Inl e, s))"

definition await :: "'a task \<Rightarrow> ('a \<Rightarrow> 'b task) \<Rightarrow> 'b task" where
  "await m f = (\<lambda>s. case m s of (Inl e, s') \<Rightarrow> (Inl e, s') | (Inr x, s') \<Rightarrow> f x s')"

definition try_catch :: "'a task \<Rightarrow> (js_error \<Rightarrow> 'a task) \<Rightarrow> 'a task" where
  "try_catch m handler =
     (\<lambda>s. case m s of (Inl e, s') \<Rightarrow> handler e s' | (Inr x, s') \<Rightarrow> (Inr x, s'))"

definition dom_exception :: "host \<Rightarrow> string \<Rightarrow> js_error" where
  "dom_exception h n = DOMException n (host_message h n)"

text \<open>
  A valid file name is not empty, is not \<open>.\<close> or \<open>..\<close>, and holds no \<open>/\<close> and no other
  path separator of the platform.
\<close>

definition valid_name :: "host \<Rightarrow> js_string \<Rightarrow> bool" where
  "valid_name h name =
     (name \<noteq> [] \<and> name \<noteq> js ''.'' \<and> name \<noteq> js ''..''
      \<and> \<not> list_ex (\<lambda>u. u = slash \<or> platform_separator h u) name)"

definition is_directory :: "(path \<times> entry) list \<Rightarrow> path \<Rightarrow> bool" where
  "is_directory es d = (d = [] \<or> map_of es d = Some Directory)"

text \<open>\<open>directory.getDirectoryHandle(name, { create })\<close>.\<close>

definition getDirectoryHandle :: "host \<Rightarrow> path \<Rightarrow> js_string \<Rightarrow> bool \<Rightarrow> path task" where
  "getDirectoryHandle h directory name create s =
     (if \<not> valid_name h name then (Inl (TypeError (host_message h ''TypeError'')), s)
      else if \<not> is_directory (entries s) directory then (Inl (dom_exception h ''NotFoundError''), s)
      else (case map_of (entries s) (directory @ [name]) of
              Some Directory \<Rightarrow> (Inr (directory @ [name]), s)
            | Some (File bs) \<Rightarrow> (Inl (dom_exception h ''TypeMismatchError''), s)
            | None \<Rightarrow>
                if create
                then (Inr (directory @ [name]),
                      s\<lparr>entries := entries s @ [(directory @ [name], Directory)]\<rparr>)
                else (Inl (dom_exception h ''NotFoundError''), s)))"

text \<open>\<open>directory.getFileHandle(name, { create })\<close>; \<open>create\<close> makes an empty file.\<close>

definition getFileHandle :: "host \<Rightarrow> path \<Rightarrow> js_string \<Rightarrow> bool \<Rightarrow> path task" where
  "getFileHandle h directory name create s =
     (if \<not> valid_name h name then (Inl (TypeError (host_message h ''TypeError'')), s)
      else if \<not> is_directory (entries s) directory then (Inl (dom_exception h ''NotFoundError''), s)
      else (case map_of (entries s) (directory @ [name]) of
              Some (File bs) \<Rightarrow> (Inr (directory @ [name]), s)
            | Some Directory \<Rightarrow> (Inl (dom_exception h ''TypeMismatchError''), s)
            | None \<Rightarrow>
                if create
                then (Inr (directory @ [name]),
                      s\<lparr>entries := entries s @ [(directory @ [name], File [])]\<rparr>)
                else (Inl (dom_exception h ''NotFoundError''), s)))"

definition children :: "(path \<times> entry) list \<Rightarrow> path \<Rightarrow> (path \<times> entry) list" where
  "children es d = filter (\<lambda>(p, e). p \<noteq> [] \<and> butlast p = d) es"

text \<open>\<open>directory.removeEntry(name)\<close>, not recursive: a directory must be empty.\<close>

definition removeEntry :: "host \<Rightarrow> path \<Rightarrow> js_string \<Rightarrow> unit task" where
  "removeEntry h directory name s =
     (if \<not> valid_name h name then (Inl (TypeError (host_message h ''TypeError'')), s)
      else if \<not> is_directory (entries s) directory then (Inl (dom_exception h ''NotFoundError''), s)
      else (case map_of (entries s) (directory @ [name]) of
              None \<Rightarrow> (Inl (dom_exception h ''NotFoundError''), s)
            | Some e \<Rightarrow>
                if e = Directory \<and> children (entries s) (directory @ [name]) \<noteq> []
                then (Inl (dom_exception h ''InvalidModificationError''), s)
                else (Inr (),
                      s\<lparr>entries := filter (\<lambda>(p, e). p \<noteq> directory @ [name]) (entries s)\<rparr>)))"

text \<open>
  \<open>for await (const entry of directory.values())\<close> with \<open>entry.name\<close> collected. The
  standard leaves the order of the enumeration to the browser; the names come sorted by
  the rank the browser gives them, which can be any order of them.
\<close>

definition values_names :: "host \<Rightarrow> path \<Rightarrow> js_string list task" where
  "values_names h directory s =
     (if \<not> is_directory (entries s) directory then (Inl (dom_exception h ''NotFoundError''), s)
      else (let names = map (\<lambda>(p, e). last p) (children (entries s) directory)
            in (Inr (sort_key (enumeration_rank h names) names), s)))"

text \<open>\<open>fileHandle.getFile()\<close>: the bytes of the file; \<open>text()\<close> and \<open>arrayBuffer()\<close> read them.\<close>

definition getFile :: "host \<Rightarrow> path \<Rightarrow> byte list task" where
  "getFile h fileHandle s =
     (case map_of (entries s) fileHandle of
        Some (File bs) \<Rightarrow> (Inr bs, s)
      | Some Directory \<Rightarrow> (Inl (dom_exception h ''NotFoundError''), s)
      | None \<Rightarrow> (Inl (dom_exception h ''NotFoundError''), s))"

text \<open>
  \<open>fileHandle.createWritable()\<close> opens a stream on an empty copy; \<open>write\<close> puts a chunk at
  the stream's position, a string as its UTF-8 bytes; \<open>close\<close> makes the copy the file.
\<close>

record writable =
  stream_target :: path
  stream_buffer :: "byte list"
  stream_position :: nat

datatype file_data = StringData js_string | BinaryData "byte list"

definition createWritable :: "host \<Rightarrow> path \<Rightarrow> writable task" where
  "createWritable h fileHandle s =
     (case map_of (entries s) fileHandle of
        Some (File bs) \<Rightarrow> (Inr \<lparr>stream_target = fileHandle, stream_buffer = [], stream_position = 0\<rparr>, s)
      | Some Directory \<Rightarrow> (Inl (dom_exception h ''NotFoundError''), s)
      | None \<Rightarrow> (Inl (dom_exception h ''NotFoundError''), s))"

definition writable_write :: "writable \<Rightarrow> file_data \<Rightarrow> writable task" where
  "writable_write w chunk =
     (let bs = (case chunk of StringData t \<Rightarrow> TextEncoder_encode t | BinaryData b \<Rightarrow> b);
          old = stream_buffer w @ replicate (stream_position w - length (stream_buffer w)) 0
      in resolve (w\<lparr>stream_buffer := take (stream_position w) old @ bs @ drop (stream_position w + length bs) old,
                     stream_position := stream_position w + length bs\<rparr>))"

fun update_entry :: "path \<Rightarrow> entry \<Rightarrow> (path \<times> entry) list \<Rightarrow> (path \<times> entry) list" where
  "update_entry p e [] = [(p, e)]"
| "update_entry p e ((q, x) # es) =
     (if q = p then (p, e) # es else (q, x) # update_entry p e es)"

definition writable_close :: "writable \<Rightarrow> unit task" where
  "writable_close w s = (Inr (), s\<lparr>entries := update_entry (stream_target w) (File (stream_buffer w)) (entries s)\<rparr>)"

section \<open>\<open>utils/fs-utils.ts\<close>\<close>

definition isOPFSSupported :: "host \<Rightarrow> bool" where
  "isOPFSSupported h = (has_navigator h \<and> has_storage h \<and> has_getDirectory h)"

text \<open>
  \<open>initialize\<close> has one suspension point, the \<open>await\<close> of
  \<open>navigator.storage.getDirectory()\<close>. Up to it, it throws, or finds \<open>rootDirectory\<close> set
  and returns, or has called \<open>getDirectory()\<close>; after it, it assigns \<open>rootDirectory\<close>.
  Run alone, \<open>initialize\<close> is the one after the other.
\<close>

datatype suspension = Thrown js_error | Returned | Requested

definition initialize_begin :: "host \<Rightarrow> state \<Rightarrow> suspension" where
  "initialize_begin h s =
     (if \<not> isOPFSSupported h then Thrown (Error (js ''OPFS is not supported in this browser''))
      else if rootDirectory s = None then Requested
      else Returned)"

definition initialize_resume :: "host \<Rightarrow> unit task" where
  "initialize_resume h s =
     (case getDirectory_error h of
        Some e \<Rightarrow> (Inl e, s)
      | None \<Rightarrow> (Inr (), s\<lparr>rootDirectory := Some []\<rparr>))"

definition initialize :: "host \<Rightarrow> unit task" where
  "initialize h s =
     (case initialize_begin h s of
        Thrown e \<Rightarrow> (Inl e, s)
      | Returned \<Rightarrow> (Inr (), s)
      | Requested \<Rightarrow> initialize_resume h s)"

text \<open>The loop of \<open>getDirectoryByPath\<close> over the parts, from \<open>currentDirectory\<close>.\<close>

fun getDirectoryByPath_loop ::
  "host \<Rightarrow> bool \<Rightarrow> js_string list \<Rightarrow> path \<Rightarrow> path task" where
  "getDirectoryByPath_loop h create [] currentDirectory s = (Inr currentDirectory, s)"
| "getDirectoryByPath_loop h create (part # parts) currentDirectory s =
     (case getDirectoryHandle h currentDirectory part create s of
        (Inl e, s') \<Rightarrow> (Inl e, s')
      | (Inr d, s') \<Rightarrow> getDirectoryByPath_loop h create parts d s')"

definition getDirectoryByPath :: "host \<Rightarrow> js_string \<Rightarrow> bool \<Rightarrow> path task" where
  "getDirectoryByPath h path create =
     await (\<lambda>s. if rootDirectory s = None then initialize h s else (Inr (), s))
       (\<lambda>_ s.
          case rootDirectory s of
            None \<Rightarrow> (Inl (Error (js ''Failed to initialize OPFS root directory'')), s)
          | Some root \<Rightarrow>
              (let parts = filter (\<lambda>part. length part > 0) (split slash path)
               in getDirectoryByPath_loop h create parts root s))"

definition getDirectoryAndFileName :: "host \<Rightarrow> js_string \<Rightarrow> (path \<times> js_string) task" where
  "getDirectoryAndFileName h path =
     await (\<lambda>s. if rootDirectory s = None then initialize h s else (Inr (), s))
       (\<lambda>_ s.
          case rootDirectory s of
            None \<Rightarrow> (Inl (Error (js ''Failed to initialize OPFS root directory'')), s)
          | Some root \<Rightarrow>
              (let (popped, parts) = pop (split slash path);
                   fileName = or_else popped [];
                   directoryPath = join [slash] parts
               in if directoryPath \<noteq> []
                  then await (getDirectoryByPath h directoryPath True)
                         (\<lambda>directory. resolve (directory, fileName)) s
                  else (Inr (root, fileName), s)))"

section \<open>\<open>fs.ts\<close>\<close>

datatype js_value =
    Null
  | Boolean bool
  | JString js_string
  | JBuffer "byte list"
  | JArray "js_string list"
  | JError js_error

text \<open>
  A callback is a function of the caller: it has an identity, and a call of it returns or
  throws a value (a callback that returns a promise which is then rejected counts as
  throwing what the promise is rejected with). What a call does may depend on the calls
  the callback received before it: \<open>thrown cb earlier arguments\<close> is the value the call
  with \<open>arguments\<close> throws after the calls \<open>earlier\<close>, if it throws. What a callback does
  to the storage is left out.
\<close>

record callback =
  ident :: nat
  thrown :: "js_value list list \<Rightarrow> js_value list \<Rightarrow> js_value option"

text \<open>
  A call in the promise style returns the promise, here its outcome. A call in the
  callback style returns \<open>undefined\<close>; what it leaves behind is the calls made to the
  callback, in order, each with its arguments, and the rejection of the chain of
  promises, which nothing handles, if the chain ends rejected.
\<close>

datatype 'a returned =
    Promise "js_error + 'a"
  | Callbacks "(nat \<times> js_value list) list" "js_value option"

text \<open>
  \<open>promise.then((x) => cb(fulfilled x)).catch((err) => cb(rejected err))\<close>. The handler
  of \<open>catch\<close> takes a rejection of \<open>promise\<close> and also what the handler of \<open>then\<close> throws:
  a callback that throws when it is called with the result is called a second time, with
  the value it threw. What the handler of \<open>catch\<close> throws rejects the chain.
\<close>

definition then_catch ::
  "(js_error + 'a) \<Rightarrow> callback \<Rightarrow> ('a \<Rightarrow> js_value list) \<Rightarrow> (js_value \<Rightarrow> js_value list)
     \<Rightarrow> 'b returned" where
  "then_catch outcome cb fulfilled rejected =
     (case outcome of
        Inl err \<Rightarrow>
          Callbacks [(ident cb, rejected (JError err))] (thrown cb [] (rejected (JError err)))
      | Inr x \<Rightarrow>
          (case thrown cb [] (fulfilled x) of
             None \<Rightarrow> Callbacks [(ident cb, fulfilled x)] None
           | Some v \<Rightarrow>
               Callbacks [(ident cb, fulfilled x), (ident cb, rejected v)]
                 (thrown cb [fulfilled x] (rejected v))))"

text \<open>
  The argument in the \<open>options\<close> position: \<open>undefined\<close> (or another falsy value), a
  function, a string, or an options object.
\<close>

datatype 'o options_arg = Nothing | Function callback | EncodingString js_string | Options 'o

record ReadFileOptions =
  encoding_of :: "js_string option"
  flag_of :: "js_string option"

record WriteFileOptions = ReadFileOptions +
  mode_of :: "nat option"

record MkdirOptions =
  recursive_of :: "bool option"
  mkdir_mode_of :: "nat option"

record ReaddirOptions =
  readdir_encoding_of :: "js_string option"
  withFileTypes_of :: "bool option"

text \<open>The normalisation of \<open>options\<close> and \<open>callback\<close> that \<open>readFile\<close> and \<open>writeFile\<close> share.\<close>

definition normalize_arguments ::
  "('o \<Rightarrow> js_string option) \<Rightarrow> 'o options_arg \<Rightarrow> callback option \<Rightarrow> js_string \<times> callback option" where
  "normalize_arguments enc options callback =
     (case options of
        Function f \<Rightarrow> (js ''utf8'', Some f)
      | EncodingString e \<Rightarrow> (e, callback)
      | Options given \<Rightarrow>
          ((case enc given of None \<Rightarrow> js ''utf8'' | Some e \<Rightarrow> if e \<noteq> [] then e else js ''utf8''),
           callback)
      | Nothing \<Rightarrow> (js ''utf8'', callback))"

datatype file_content = AsText js_string | AsBuffer "byte list"

fun content_value :: "file_content \<Rightarrow> js_value" where
  "content_value (AsText t) = JString t"
| "content_value (AsBuffer b) = JBuffer b"

definition readFileAsync ::
  "host \<Rightarrow> buffer_module \<Rightarrow> js_string \<Rightarrow> js_string \<Rightarrow> file_content task" where
  "readFileAsync h m path encoding =
     try_catch
       (await (getDirectoryAndFileName h path) (\<lambda>(directory, fileName).
        await (getFileHandle h directory fileName False) (\<lambda>fileHandle.
        await (getFile h fileHandle) (\<lambda>file.
          if encoding = js ''utf8'' \<or> encoding = js ''utf-8'' then resolve (AsText (utf8_decode file))
          else if encoding = js ''base64'' then
            (case module_from h m (ArrayBuffer file) None of
               Inl e \<Rightarrow> reject e
             | Inr buffer \<Rightarrow>
                 (case module_toString h m buffer (Some (js ''base64'')) of
                    Inl e \<Rightarrow> reject e
                  | Inr t \<Rightarrow> resolve (AsText t)))
          else
            (case module_from h m (ArrayBuffer file) None of
               Inl e \<Rightarrow> reject e
             | Inr buffer \<Rightarrow> resolve (AsBuffer buffer))))))
       (\<lambda>error. reject (Error (js ''Error reading file: '' @ message error)))"

definition readFile ::
  "host \<Rightarrow> buffer_module \<Rightarrow> js_string \<Rightarrow> ReadFileOptions options_arg \<Rightarrow> callback option
     \<Rightarrow> state \<Rightarrow> file_content returned \<times> state" where
  "readFile h m path options callback s =
     (let (encoding, cb) = normalize_arguments encoding_of options callback;
          (outcome, s') = readFileAsync h m path encoding s
      in case cb of
           Some f \<Rightarrow>
             (then_catch outcome f (\<lambda>data. [Null, content_value data]) (\<lambda>err. [err, JString []]), s')
         | None \<Rightarrow> (Promise outcome, s'))"

definition readFileSync :: "js_string \<Rightarrow> js_error + unit" where
  "readFileSync path =
     Inl (Error (js ''readFileSync is not supported in browser environment. Use readFile() instead.''))"

definition writeFileAsync ::
  "host \<Rightarrow> buffer_module \<Rightarrow> js_string \<Rightarrow> file_data \<Rightarrow> js_string \<Rightarrow> unit task" where
  "writeFileAsync h m path data encoding =
     try_catch
       (await (getDirectoryAndFileName h path) (\<lambda>(directory, fileName).
        await (getFileHandle h directory fileName True) (\<lambda>fileHandle.
        await (createWritable h fileHandle) (\<lambda>writable.
        await
          (case data of
             StringData t \<Rightarrow>
               if encoding = js ''base64'' then
                 (case module_from h m (Text t) (Some (js ''base64'')) of
                    Inl e \<Rightarrow> reject e
                  | Inr buffer \<Rightarrow> writable_write writable (BinaryData buffer))
               else writable_write writable (StringData t)
           | BinaryData b \<Rightarrow> writable_write writable (BinaryData b))
          (\<lambda>writable. writable_close writable)))))
       (\<lambda>error. reject (Error (js ''Error writing file: '' @ message error)))"

definition writeFile ::
  "host \<Rightarrow> buffer_module \<Rightarrow> js_string \<Rightarrow> file_data \<Rightarrow> WriteFileOptions options_arg
     \<Rightarrow> callback option \<Rightarrow> state \<Rightarrow> unit returned \<times> state" where
  "writeFile h m path data options callback s =
     (let (encoding, cb) = normalize_arguments encoding_of options callback;
          (outcome, s') = writeFileAsync h m path data encoding s
      in case cb of
           Some f \<Rightarrow> (then_catch outcome f (\<lambda>u. [Null]) (\<lambda>err. [err]), s')
         | None \<Rightarrow> (Promise outcome, s'))"

definition writeFileSync :: "js_string \<Rightarrow> file_data \<Rightarrow> js_error + unit" where
  "writeFileSync path data =
     Inl (Error (js ''writeFileSync is not supported in browser environment. Use writeFile() instead.''))"

definition existsSync :: "js_string \<Rightarrow> js_error + bool" where
  "existsSync path =
     Inl (Error (js ''existsSync is not supported in browser environment. Use exists() instead.''))"

definition checkExists :: "host \<Rightarrow> js_string \<Rightarrow> bool task" where
  "checkExists h path =
     try_catch
       (await (getDirectoryAndFileName h path) (\<lambda>(directory, fileName).
        await (getFileHandle h directory fileName False) (\<lambda>fileHandle.
        resolve True)))
       (\<lambda>error. resolve False)"

text \<open>
  \<open>checkExists().then((exists) => callback(exists))\<close> has no rejection handler: were the
  promise rejected, the callback would not be called; what the callback throws rejects
  the chain.
\<close>

definition exists ::
  "host \<Rightarrow> js_string \<Rightarrow> callback option \<Rightarrow> state \<Rightarrow> bool returned \<times> state" where
  "exists h path callback s =
     (let (outcome, s') = checkExists h path s
      in case callback of
           Some f \<Rightarrow>
             (case outcome of
                Inr found \<Rightarrow>
                  (Callbacks [(ident f, [Boolean found])] (thrown f [] [Boolean found]), s')
              | Inl err \<Rightarrow> (Callbacks [] (Some (JError err)), s'))
         | None \<Rightarrow> (Promise outcome, s'))"

definition unlinkFile :: "host \<Rightarrow> js_string \<Rightarrow> unit task" where
  "unlinkFile h path =
     try_catch
       (await (getDirectoryAndFileName h path) (\<lambda>(directory, fileName).
        removeEntry h directory fileName))
       (\<lambda>error. reject (Error (js ''Error deleting file: '' @ message error)))"

definition unlink ::
  "host \<Rightarrow> js_string \<Rightarrow> callback option \<Rightarrow> state \<Rightarrow> unit returned \<times> state" where
  "unlink h path callback s =
     (let (outcome, s') = unlinkFile h path s
      in case callback of
           Some f \<Rightarrow> (then_catch outcome f (\<lambda>u. [Null]) (\<lambda>err. [err]), s')
         | None \<Rightarrow> (Promise outcome, s'))"

definition createDir :: "host \<Rightarrow> js_string \<Rightarrow> unit task" where
  "createDir h path =
     try_catch
       (await (getDirectoryByPath h path True) (\<lambda>directory. resolve ()))
       (\<lambda>error. reject (Error (js ''Error creating directory: '' @ message error)))"

text \<open>
  \<open>mkdir\<close> builds \<open>opts\<close> from \<open>{ recursive: false }\<close> and the options given, and does not
  read it again.
\<close>

definition mkdir ::
  "host \<Rightarrow> js_string \<Rightarrow> MkdirOptions options_arg \<Rightarrow> callback option
     \<Rightarrow> state \<Rightarrow> unit returned \<times> state" where
  "mkdir h path options callback s =
     (let (opts, cb) =
            (case options of
               Function f \<Rightarrow> (False, Some f)
             | Options given \<Rightarrow> ((case recursive_of given of None \<Rightarrow> False | Some r \<Rightarrow> r), callback)
             | EncodingString e \<Rightarrow> (False, callback)
             | Nothing \<Rightarrow> (False, callback));
          (outcome, s') = createDir h path s
      in case cb of
           Some f \<Rightarrow> (then_catch outcome f (\<lambda>u. [Null]) (\<lambda>err. [err]), s')
         | None \<Rightarrow> (Promise outcome, s'))"

definition readDirectory :: "host \<Rightarrow> js_string \<Rightarrow> js_string list task" where
  "readDirectory h path =
     try_catch
       (await (getDirectoryByPath h path False) (\<lambda>directory. values_names h directory))
       (\<lambda>error. reject (Error (js ''Error reading directory: '' @ message error)))"

definition readdir ::
  "host \<Rightarrow> js_string \<Rightarrow> ReaddirOptions options_arg \<Rightarrow> callback option
     \<Rightarrow> state \<Rightarrow> js_string list returned \<times> state" where
  "readdir h path options callback s =
     (let cb = (case options of Function f \<Rightarrow> Some f | _ \<Rightarrow> callback);
          (outcome, s') = readDirectory h path s
      in case cb of
           Some f \<Rightarrow>
             (then_catch outcome f (\<lambda>files. [Null, JArray files]) (\<lambda>err. [err, JArray []]), s')
         | None \<Rightarrow> (Promise outcome, s'))"

text \<open>The exported \<open>constants\<close> object: its keys and their values.\<close>

definition constants :: "(string \<times> nat) list" where
  "constants = [(''F_OK'', 0), (''R_OK'', 4), (''W_OK'', 2), (''X_OK'', 1)]"

section \<open>Resolutions that overlap\<close>

text \<open>
  \<open>getDirectoryAndFileName\<close> and \<open>getDirectoryByPath\<close> both start with
  \<open>if (!rootDirectory) { await initialize(); }\<close>. JavaScript runs one piece of code at a
  time and changes to another only at an \<open>await\<close>, so this beginning of a resolution
  is two atomic steps: the test with \<open>initialize\<close> up to its suspension point, and, once
  \<open>getDirectory()\<close> has settled, the rest of \<open>initialize\<close>. A resolution has not started,
  awaits \<open>getDirectory()\<close>, has assigned \<open>rootDirectory\<close>, has found it set and reused it,
  or has failed (no support, or \<open>getDirectory()\<close> rejected). A schedule names the
  resolution that takes the next step.
\<close>

datatype resolution =
  NotStarted | Awaiting | Assigned | Reused | Unsupported js_error | Rejected js_error

definition advance :: "host \<Rightarrow> resolution \<Rightarrow> state \<Rightarrow> resolution \<times> state" where
  "advance h r s =
     (case r of
        NotStarted \<Rightarrow>
          if rootDirectory s = None then
            (case initialize_begin h s of
               Thrown e \<Rightarrow> (Unsupported e, s)
             | Returned \<Rightarrow> (Reused, s)
             | Requested \<Rightarrow> (Awaiting, s))
          else (Reused, s)
      | Awaiting \<Rightarrow>
          (case initialize_resume h s of
             (Inl e, s') \<Rightarrow> (Rejected e, s')
           | (Inr u, s') \<Rightarrow> (Assigned, s'))
      | _ \<Rightarrow> (r, s))"

record concurrent =
  shared :: state
  resolutions :: "resolution list"

definition step :: "host \<Rightarrow> nat \<Rightarrow> concurrent \<Rightarrow> concurrent" where
  "step h i c =
     (if i < length (resolutions c) then
        (let (r, s) = advance h (resolutions c ! i) (shared c)
         in \<lparr>shared = s, resolutions = (resolutions c)[i := r]\<rparr>)
      else c)"

definition run :: "host \<Rightarrow> nat list \<Rightarrow> concurrent \<Rightarrow> concurrent" where
  "run h schedule c = fold (step h) schedule c"

text \<open>
  The calls of \<open>navigator.storage.getDirectory()\<close> made so far, one by each resolution
  that got past the test, and the assignments to \<open>rootDirectory\<close> made so far.
\<close>

definition requests :: "resolution list \<Rightarrow> nat" where
  "requests rs =
     length (filter (\<lambda>r. case r of Awaiting \<Rightarrow> True | Assigned \<Rightarrow> True | Rejected e \<Rightarrow> True
                               | _ \<Rightarrow> False) rs)"

definition assignments :: "resolution list \<Rightarrow> nat" where
  "assignments rs = length (filter (\<lambda>r. r = Assigned) rs)"

definition overlapping :: "state \<Rightarrow> nat \<Rightarrow> concurrent" where
  "overlapping s n = \<lparr>shared = s, resolutions = replicate n NotStarted\<rparr>"

section \<open>Notions for the statements\<close>

text \<open>
  A browser with the storage API, for the concrete runs below: its exceptions carry
  their names as messages, \<open>/\<close> is its only separator, it has no legacy decoders, and
  it enumerates a directory in the order of the table.
  \<open>fresh\<close> is the program before its first call, on an empty storage.
\<close>

definition browser :: host where
  "browser =
     \<lparr>has_navigator = True, has_storage = True, has_getDirectory = True,
      getDirectory_error = None, host_message = js, platform_separator = (\<lambda>u. False),
      legacy_decode = (\<lambda>n bs. []), enumeration_rank = (\<lambda>names name. 0)\<rparr>"

definition fresh :: state where
  "fresh = \<lparr>rootDirectory = None, entries = []\<rparr>"

text \<open>The non-empty parts of a path, as \<open>getDirectoryByPath\<close> computes them.\<close>

definition segments :: "js_string \<Rightarrow> path" where
  "segments path = filter (\<lambda>part. length part > 0) (split slash path)"

text \<open>
  What the common beginning of the two resolvers comes to when it runs alone: the root
  handle, with \<open>rootDirectory\<close> assigned if it was not, or the error of \<open>initialize\<close>.
\<close>

definition with_root :: "host \<Rightarrow> state \<Rightarrow> (js_error + path) \<times> state" where
  "with_root h s =
     (case rootDirectory s of
        Some r \<Rightarrow> (Inr r, s)
      | None \<Rightarrow>
          if \<not> isOPFSSupported h
          then (Inl (Error (js ''OPFS is not supported in this browser'')), s)
          else (case getDirectory_error h of
                  Some e \<Rightarrow> (Inl e, s)
                | None \<Rightarrow> (Inr [], s\<lparr>rootDirectory := Some []\<rparr>)))"



text \<open>The completion callback of a call: the function in the options position, else \<open>callback\<close>.\<close>

definition chosen :: "'o options_arg \<Rightarrow> callback option \<Rightarrow> callback option" where
  "chosen options callback = (case options of Function f \<Rightarrow> Some f | _ \<Rightarrow> callback)"

text \<open>
  A callback that returns from every call, and one that throws the string \<open>boom\<close> from
  the first call it receives and returns from the later ones.
\<close>

definition quiet :: "nat \<Rightarrow> callback" where
  "quiet n = \<lparr>ident = n, thrown = (\<lambda>earlier arguments. None)\<rparr>"

definition hasty :: "nat \<Rightarrow> callback" where
  "hasty n =
     \<lparr>ident = n,
      thrown = (\<lambda>earlier arguments. if earlier = [] then Some (JString (js ''boom'')) else None)\<rparr>"

text \<open>Unicode scalar values; a string without a leading U+FEFF.\<close>

definition scalar :: "nat \<Rightarrow> bool" where
  "scalar c = (c < 0x110000 \<and> \<not> (0xD800 \<le> c \<and> c \<le> 0xDFFF))"

definition drop_bom :: "js_string \<Rightarrow> js_string" where
  "drop_bom s = (case s of [] \<Rightarrow> [] | u # r \<Rightarrow> if u = 0xFEFF then r else s)"

text \<open>\<open>Buffer.from(s, 'utf8').toString('utf8')\<close>, for either module.\<close>

definition from_then_toString ::
  "host \<Rightarrow> buffer_module \<Rightarrow> js_string \<Rightarrow> js_error + js_string" where
  "from_then_toString h m s =
     (case module_from h m (Text s) (Some (js ''utf8'')) of
        Inl e \<Rightarrow> Inl e
      | Inr buffer \<Rightarrow> module_toString h m buffer (Some (js ''utf8'')))"

section \<open>The encodings: UTF-8 and UTF-16 round trips\<close>

lemma unat_byte: "x < 256 \<Longrightarrow> unat (of_nat x :: byte) = x"
  by (simp add: unat_of_nat)

lemma step_ascii: "utf8_lead (unat b) = Ascii c \<Longrightarrow>
  utf8_decoder cp seen 0 lo hi (b # bs) = c # utf8_decoder 0 0 0 0x80 0xBF bs"
  by simp

lemma step_lead: "utf8_lead (unat b) = Lead c n l u \<Longrightarrow>
  utf8_decoder cp seen 0 lo hi (b # bs) = utf8_decoder c 0 n l u bs"
  by simp

lemma step_cont: "needed \<noteq> 0 \<Longrightarrow> lo \<le> unat b \<Longrightarrow> unat b \<le> hi \<Longrightarrow> seen + 1 \<noteq> needed \<Longrightarrow>
  utf8_decoder cp seen needed lo hi (b # bs) =
  utf8_decoder (cp * 0x40 + unat b mod 0x40) (seen + 1) needed 0x80 0xBF bs"
  by (simp add: Let_def)

lemma step_last: "needed \<noteq> 0 \<Longrightarrow> lo \<le> unat b \<Longrightarrow> unat b \<le> hi \<Longrightarrow> seen + 1 = needed \<Longrightarrow>
  utf8_decoder cp seen needed lo hi (b # bs) =
  (cp * 0x40 + unat b mod 0x40) # utf8_decoder 0 0 0 0x80 0xBF bs"
  by (simp add: Let_def)

lemma dec1: assumes "c < 0x80"
  shows "utf8_decoder 0 0 0 0x80 0xBF (utf8_bytes c @ rest) = c # utf8_decoder 0 0 0 0x80 0xBF rest"
  using assms by (simp add: utf8_bytes_def utf8_lead_def unat_byte)

lemma mod_lead:
  "k < 0x20 \<Longrightarrow> (0xC0 + k) mod 0x20 = (k::nat)"
  "k < 0x10 \<Longrightarrow> (0xE0 + k) mod 0x10 = (k::nat)"
  "k < 8 \<Longrightarrow> (0xF0 + k) mod 8 = (k::nat)"
  "l < 0x40 \<Longrightarrow> (0x80 + l) mod 0x40 = (l::nat)"
  using mod_mult_self4[of 32 6 k] mod_mult_self4[of 16 14 k] mod_mult_self4[of 8 30 k]
    mod_mult_self4[of 64 2 l] by simp_all

lemma div_chain:
  "(c::nat) div 0x1000 * 0x40 + c div 0x40 mod 0x40 = c div 0x40"
  "(c::nat) div 0x40000 * 0x40 + c div 0x1000 mod 0x40 = c div 0x1000"
  using div_mult2_eq[of c 64 64] div_mult_mod_eq[of "c div 64" 64]
    div_mult2_eq[of c 4096 64] div_mult_mod_eq[of "c div 4096" 64] by simp_all

lemma cont_byte:
  assumes "l < 0x40"
  shows "unat (of_nat (0x80 + l) :: byte) = 0x80 + l"
  by (rule unat_byte) (use assms in simp)

lemma dec2: assumes "0x80 \<le> c" "c < 0x800"
  shows "utf8_decoder 0 0 0 0x80 0xBF (utf8_bytes c @ rest) = c # utf8_decoder 0 0 0 0x80 0xBF rest"
proof -
  define k where "k = c div 0x40"
  define l where "l = c mod 0x40"
  have c: "k * 0x40 + l = c" and l: "l < 0x40" and k: "2 \<le> k" "k < 0x20"
    using assms by (auto simp: k_def l_def)
  define b1 :: byte where "b1 = of_nat (0xC0 + k)"
  define b2 :: byte where "b2 = of_nat (0x80 + l)"
  have u1: "unat b1 = 0xC0 + k" unfolding b1_def by (rule unat_byte) (use k in simp)
  have u2: "unat b2 = 0x80 + l" unfolding b2_def by (rule cont_byte [OF l])
  have bytes: "utf8_bytes c = [b1, b2]"
    using assms unfolding utf8_bytes_def k_def l_def b1_def b2_def by simp
  have ld: "utf8_lead (unat b1) = Lead k 1 0x80 0xBF"
    unfolding u1 utf8_lead_def using k by (simp add: mod_lead)
  have "utf8_decoder 0 0 0 0x80 0xBF ([b1, b2] @ rest) = utf8_decoder k 0 1 0x80 0xBF (b2 # rest)"
    using step_lead [OF ld] by simp
  also have "\<dots> = (k * 0x40 + unat b2 mod 0x40) # utf8_decoder 0 0 0 0x80 0xBF rest"
    by (rule step_last) (use l in \<open>simp_all add: u2\<close>)
  also have "k * 0x40 + unat b2 mod 0x40 = c"
    unfolding u2 using l c by (simp add: mod_lead)
  finally show ?thesis unfolding bytes .
qed

lemma dec3: assumes "0x800 \<le> c" "c < 0x10000" "\<not> (0xD800 \<le> c \<and> c \<le> 0xDFFF)"
  shows "utf8_decoder 0 0 0 0x80 0xBF (utf8_bytes c @ rest) = c # utf8_decoder 0 0 0 0x80 0xBF rest"
proof -
  define k where "k = c div 0x1000"
  define m where "m = c div 0x40 mod 0x40"
  define l where "l = c mod 0x40"
  have k: "k < 0x10" using assms by (simp add: k_def)
  have m: "m < 0x40" and l: "l < 0x40" by (simp_all add: m_def l_def)
  have km: "k * 0x40 + m = c div 0x40" unfolding k_def m_def by (rule div_chain)
  have c: "c div 0x40 * 0x40 + l = c" by (simp add: l_def)
  have lo: "k = 0 \<Longrightarrow> 0x20 \<le> m"
  proof -
    assume "k = 0"
    then have "m = c div 0x40" using km by simp
    moreover have "0x20 \<le> c div 0x40" using assms(1) by simp
    ultimately show ?thesis by simp
  qed
  have hi: "k = 0xD \<Longrightarrow> m < 0x20"
  proof -
    assume k13: "k = 0xD"
    have "c < 0xE000"
    proof (rule ccontr)
      assume "\<not> c < 0xE000"
      then have "0xE \<le> c div 0x1000" by simp
      then show False using k13 by (simp add: k_def)
    qed
    then have "c < 0xD800" using assms(3) by simp
    then have "c div 0x40 < 864" by simp
    then show ?thesis using km k13 by simp
  qed
  define b1 :: byte where "b1 = of_nat (0xE0 + k)"
  define b2 :: byte where "b2 = of_nat (0x80 + m)"
  define b3 :: byte where "b3 = of_nat (0x80 + l)"
  have u1: "unat b1 = 0xE0 + k" unfolding b1_def by (rule unat_byte) (use k in simp)
  have u2: "unat b2 = 0x80 + m" unfolding b2_def by (rule cont_byte [OF m])
  have u3: "unat b3 = 0x80 + l" unfolding b3_def by (rule cont_byte [OF l])
  have bytes: "utf8_bytes c = [b1, b2, b3]"
    using assms unfolding utf8_bytes_def k_def l_def m_def b1_def b2_def b3_def by simp
  have ld: "utf8_lead (unat b1) =
      Lead k 2 (if k = 0 then 0xA0 else 0x80) (if k = 0xD then 0x9F else 0xBF)"
    unfolding u1 utf8_lead_def using k by (simp add: mod_lead)
  have "utf8_decoder 0 0 0 0x80 0xBF ([b1, b2, b3] @ rest) =
      utf8_decoder k 0 2 (if k = 0 then 0xA0 else 0x80) (if k = 0xD then 0x9F else 0xBF) (b2 # b3 # rest)"
    using step_lead [OF ld] by simp
  also have "\<dots> = utf8_decoder (k * 0x40 + unat b2 mod 0x40) (0 + 1) 2 0x80 0xBF (b3 # rest)"
    by (rule step_cont) (use lo hi m in \<open>auto simp: u2\<close>)
  also have "k * 0x40 + unat b2 mod 0x40 = c div 0x40"
    unfolding u2 using m km by (simp add: mod_lead)
  also have "utf8_decoder (c div 0x40) (0 + 1) 2 0x80 0xBF (b3 # rest) =
      (c div 0x40 * 0x40 + unat b3 mod 0x40) # utf8_decoder 0 0 0 0x80 0xBF rest"
    by (rule step_last) (use l in \<open>simp_all add: u3\<close>)
  also have "c div 0x40 * 0x40 + unat b3 mod 0x40 = c"
    unfolding u3 using l c by (simp add: mod_lead)
  finally show ?thesis unfolding bytes .
qed

lemma dec4: assumes "0x10000 \<le> c" "c < 0x110000"
  shows "utf8_decoder 0 0 0 0x80 0xBF (utf8_bytes c @ rest) = c # utf8_decoder 0 0 0 0x80 0xBF rest"
proof -
  define k where "k = c div 0x40000"
  define n where "n = c div 0x1000 mod 0x40"
  define m where "m = c div 0x40 mod 0x40"
  define l where "l = c mod 0x40"
  have k: "k < 5" using assms by (simp add: k_def)
  have n: "n < 0x40" and m: "m < 0x40" and l: "l < 0x40" by (simp_all add: n_def m_def l_def)
  have kn: "k * 0x40 + n = c div 0x1000" unfolding k_def n_def by (rule div_chain)
  have nm: "c div 0x1000 * 0x40 + m = c div 0x40" unfolding m_def by (rule div_chain)
  have c: "c div 0x40 * 0x40 + l = c" by (simp add: l_def)
  have lo: "k = 0 \<Longrightarrow> 0x10 \<le> n"
  proof -
    assume "k = 0"
    then have "n = c div 0x1000" using kn by simp
    moreover have "0x10 \<le> c div 0x1000" using assms(1) by simp
    ultimately show ?thesis by simp
  qed
  have hi: "k = 4 \<Longrightarrow> n < 0x10"
  proof -
    assume k4: "k = 4"
    have "c div 0x1000 < 272" using assms(2) by simp
    then show ?thesis using kn k4 by simp
  qed
  define b1 :: byte where "b1 = of_nat (0xF0 + k)"
  define b2 :: byte where "b2 = of_nat (0x80 + n)"
  define b3 :: byte where "b3 = of_nat (0x80 + m)"
  define b4 :: byte where "b4 = of_nat (0x80 + l)"
  have u1: "unat b1 = 0xF0 + k" unfolding b1_def by (rule unat_byte) (use k in simp)
  have u2: "unat b2 = 0x80 + n" unfolding b2_def by (rule cont_byte [OF n])
  have u3: "unat b3 = 0x80 + m" unfolding b3_def by (rule cont_byte [OF m])
  have u4: "unat b4 = 0x80 + l" unfolding b4_def by (rule cont_byte [OF l])
  have bytes: "utf8_bytes c = [b1, b2, b3, b4]"
    using assms unfolding utf8_bytes_def k_def l_def m_def n_def b1_def b2_def b3_def b4_def by simp
  have ld: "utf8_lead (unat b1) =
      Lead k 3 (if k = 0 then 0x90 else 0x80) (if k = 4 then 0x8F else 0xBF)"
    unfolding u1 utf8_lead_def using k by (simp add: mod_lead)
  have "utf8_decoder 0 0 0 0x80 0xBF ([b1, b2, b3, b4] @ rest) =
      utf8_decoder k 0 3 (if k = 0 then 0x90 else 0x80) (if k = 4 then 0x8F else 0xBF) (b2 # b3 # b4 # rest)"
    using step_lead [OF ld] by simp
  also have "\<dots> = utf8_decoder (k * 0x40 + unat b2 mod 0x40) (0 + 1) 3 0x80 0xBF (b3 # b4 # rest)"
    by (rule step_cont) (use lo hi n in \<open>auto simp: u2\<close>)
  also have "k * 0x40 + unat b2 mod 0x40 = c div 0x1000"
    unfolding u2 using n kn by (simp add: mod_lead)
  also have "utf8_decoder (c div 0x1000) (0 + 1) 3 0x80 0xBF (b3 # b4 # rest) =
      utf8_decoder (c div 0x1000 * 0x40 + unat b3 mod 0x40) (0 + 1 + 1) 3 0x80 0xBF (b4 # rest)"
    by (rule step_cont) (use m in \<open>simp_all add: u3\<close>)
  also have "c div 0x1000 * 0x40 + unat b3 mod 0x40 = c div 0x40"
    unfolding u3 using m nm by (simp add: mod_lead)
  also have "utf8_decoder (c div 0x40) (0 + 1 + 1) 3 0x80 0xBF (b4 # rest) =
      (c div 0x40 * 0x40 + unat b4 mod 0x40) # utf8_decoder 0 0 0 0x80 0xBF rest"
    by (rule step_last) (use l in \<open>simp_all add: u4\<close>)
  also have "c div 0x40 * 0x40 + unat b4 mod 0x40 = c"
    unfolding u4 using l c by (simp add: mod_lead)
  finally show ?thesis unfolding bytes .
qed

lemma decode_scalar: "scalar c \<Longrightarrow>
  utf8_decoder 0 0 0 0x80 0xBF (utf8_bytes c @ rest) = c # utf8_decoder 0 0 0 0x80 0xBF rest"
  using dec1 [of c rest] dec2 [of c rest] dec3 [of c rest] dec4 [of c rest]
  unfolding scalar_def by linarith

lemma decode_encode: "list_all scalar cs \<Longrightarrow> utf8_decoder 0 0 0 0x80 0xBF (utf8_encode cs) = cs"
proof (induction cs)
  case Nil
  then show ?case by (simp add: utf8_encode_def)
next
  case (Cons c cs)
  then have "utf8_decoder 0 0 0 0x80 0xBF (utf8_bytes c @ utf8_encode cs) = c # cs"
    by (simp add: decode_scalar)
  then show ?case by (simp add: utf8_encode_def)
qed

lemma pair_units:
  assumes "is_high_surrogate u" "is_low_surrogate v"
  shows "utf16_units (0x10000 + (unat u - 0xD800) * 0x400 + (unat v - 0xDC00)) = [u, v]"
    and "scalar (0x10000 + (unat u - 0xD800) * 0x400 + (unat v - 0xDC00))"
    and "0x10000 + (unat u - 0xD800) * 0x400 + (unat v - 0xDC00) \<noteq> 0xFEFF"
proof -
  define a where "a = unat u - 0xD800"
  define b where "b = unat v - 0xDC00"
  have a: "a < 0x400" "0xD800 + a = unat u"
    using assms(1) by (auto simp: a_def is_high_surrogate_def)
  have b: "b < 0x400" "0xDC00 + b = unat v"
    using assms(2) by (auto simp: b_def is_low_surrogate_def)
  have d: "(a * 0x400 + b) div 0x400 = a" using b(1) by simp
  have m: "(a * 0x400 + b) mod 0x400 = b" using b(1) by simp
  have "utf16_units (0x10000 + a * 0x400 + b) = [of_nat (0xD800 + a), of_nat (0xDC00 + b)]"
    unfolding utf16_units_def using d m by (simp add: add.assoc del: of_nat_add of_nat_numeral)
  then show "utf16_units (0x10000 + (unat u - 0xD800) * 0x400 + (unat v - 0xDC00)) = [u, v]"
    unfolding a_def [symmetric] b_def [symmetric] a(2) b(2) by simp
  have "a * 0x400 + b < 0x100000" using a(1) b(1) by linarith
  then show "scalar (0x10000 + (unat u - 0xD800) * 0x400 + (unat v - 0xDC00))"
    unfolding a_def [symmetric] b_def [symmetric] scalar_def by simp
  show "0x10000 + (unat u - 0xD800) * 0x400 + (unat v - 0xDC00) \<noteq> 0xFEFF"
    by simp
qed

lemma single_unit:
  assumes "\<not> is_high_surrogate u" "\<not> is_low_surrogate u"
  shows "utf16_units (lone u) = [u]" and "scalar (lone u)"
proof -
  have lt: "unat u < 0x10000" using unsigned_less [of u, where ?'a = nat] by simp
  show "utf16_units (lone u) = [u]"
    using assms lt by (simp add: lone_def utf16_units_def)
  show "scalar (lone u)"
    using assms lt by (auto simp: lone_def scalar_def is_high_surrogate_def is_low_surrogate_def)
qed

lemma well_formed_scalars: "well_formed s \<Longrightarrow> list_all scalar (to_scalars s)"
proof (induction s rule: to_scalars.induct)
  case 1
  then show ?case by simp
next
  case (2 u)
  then show ?case by (simp add: single_unit)
next
  case (3 u v r)
  then show ?case by (auto simp: pair_units single_unit split: if_splits)
qed

lemma well_formed_units: "well_formed s \<Longrightarrow> from_scalars (to_scalars s) = s"
proof (induction s rule: to_scalars.induct)
  case 1
  then show ?case by (simp add: from_scalars_def)
next
  case (2 u)
  then show ?case by (simp add: from_scalars_def single_unit)
next
  case (3 u v r)
  then show ?case by (auto simp: from_scalars_def pair_units single_unit split: if_splits)
qed

lemma lone_bom: "lone u = 0xFEFF \<longleftrightarrow> u = 0xFEFF"
proof
  assume "lone u = 0xFEFF"
  then have "unat u = 0xFEFF" by (simp add: lone_def split: if_splits)
  then have "of_nat (unat u) = (of_nat 0xFEFF :: code_unit)" by simp
  then show "u = 0xFEFF" by simp
next
  assume "u = 0xFEFF"
  then show "lone u = 0xFEFF" by (simp add: lone_def is_high_surrogate_def is_low_surrogate_def)
qed

lemma bom_not_surrogate: "\<not> is_high_surrogate 0xFEFF" "\<not> is_low_surrogate 0xFEFF"
  by (simp_all add: is_high_surrogate_def is_low_surrogate_def)

lemma well_formed_strip: "well_formed s \<Longrightarrow> from_scalars (strip_bom (to_scalars s)) = drop_bom s"
proof (cases s rule: to_scalars.cases)
  case 1
  then show ?thesis by (simp add: strip_bom_def drop_bom_def from_scalars_def)
next
  case (2 u)
  assume "well_formed s"
  with 2 show ?thesis
    by (simp add: strip_bom_def drop_bom_def from_scalars_def lone_bom single_unit)
next
  case (3 u v r)
  assume wf: "well_formed s"
  show ?thesis
  proof (cases "is_high_surrogate u")
    case True
    with wf 3 have low: "is_low_surrogate v" and r: "well_formed r" by simp_all
    have "u \<noteq> 0xFEFF" using True bom_not_surrogate by auto
    then show ?thesis
      using 3 True low well_formed_units [OF wf] pair_units(3) [OF True low]
      by (simp add: strip_bom_def drop_bom_def)
  next
    case False
    with wf 3 have nl: "\<not> is_low_surrogate u" and r: "well_formed (v # r)" by simp_all
    show ?thesis
    proof (cases "u = 0xFEFF")
      case True
      then show ?thesis
        using 3 False nl well_formed_units [OF r]
        by (simp add: strip_bom_def drop_bom_def lone_bom)
    next
      case neq: False
      then show ?thesis
        using 3 False nl well_formed_units [OF wf]
        by (simp add: strip_bom_def drop_bom_def lone_bom)
    qed
  qed
qed

lemma roundtrip: "well_formed s \<Longrightarrow> utf8_decode (TextEncoder_encode s) = drop_bom s"
  by (simp add: utf8_decode_def TextEncoder_encode_def decode_encode well_formed_scalars well_formed_strip)

section \<open>Paths and the resolvers\<close>

lemma split_not_Nil: "split sep s \<noteq> []"
  by (induction s) (auto simp: Let_def)

lemma pop_split: "pop (split sep s) = (Some (last (split sep s)), butlast (split sep s))"
  by (simp add: pop_def split_not_Nil)

lemma split_parts_no_sep: "x \<in> set (split sep s) \<Longrightarrow> sep \<notin> set x"
proof (induction s arbitrary: x)
  case Nil
  then show ?case by simp
next
  case (Cons c cs)
  obtain p ps where r: "split sep cs = p # ps"
    using split_not_Nil [of sep cs] by (cases "split sep cs") auto
  have p: "sep \<notin> set p" and ps: "\<And>y. y \<in> set ps \<Longrightarrow> sep \<notin> set y"
    using Cons.IH r by auto
  show ?case using Cons.prems p ps r by (auto simp: Let_def split: if_splits)
qed

lemma split_append_sep:
  "sep \<notin> set p \<Longrightarrow> split sep (p @ sep # rest) = p # split sep rest"
  by (induction p) (auto simp: Let_def)

lemma split_no_sep: "sep \<notin> set p \<Longrightarrow> split sep p = [p]"
  by (induction p) (auto simp: Let_def)

lemma split_join:
  "ps \<noteq> [] \<Longrightarrow> (\<And>x. x \<in> set ps \<Longrightarrow> sep \<notin> set x) \<Longrightarrow> split sep (join [sep] ps) = ps"
proof (induction ps)
  case Nil
  then show ?case by simp
next
  case (Cons p ps)
  show ?case
  proof (cases ps)
    case Nil
    then show ?thesis using Cons.prems by (simp add: split_no_sep)
  next
    case (Cons q qs)
    then have "split sep (join [sep] ps) = ps" using Cons.IH Cons.prems by simp
    then show ?thesis using Cons Cons.prems by (simp add: split_append_sep)
  qed
qed

lemma join_empty: "join [sep] ps = [] \<longleftrightarrow> ps = [] \<or> ps = [[]]"
proof (cases ps)
  case Nil
  then show ?thesis by simp
next
  case (Cons p qs)
  then show ?thesis by (cases qs) auto
qed

lemma segments_join:
  assumes "\<And>x. x \<in> set ps \<Longrightarrow> slash \<notin> set x"
  shows "segments (join [slash] ps) = filter (\<lambda>part. length part > 0) ps"
proof (cases "ps = []")
  case True
  then show ?thesis by (simp add: segments_def)
next
  case False
  then show ?thesis using assms by (simp add: segments_def split_join)
qed

lemma filter_butlast_last:
  "xs \<noteq> [] \<Longrightarrow> filter P xs = filter P (butlast xs) @ (if P (last xs) then [last xs] else [])"
  by (induction xs) auto

lemma with_root_Inr: "with_root h s = (Inr r, s1) \<Longrightarrow> rootDirectory s1 = Some r"
  by (auto simp: with_root_def split: option.splits if_splits)

lemma with_root_entries: "with_root h s = (x, s1) \<Longrightarrow> entries s1 = entries s"
  by (auto simp: with_root_def split: option.splits if_splits)

lemma getDirectoryByPath_eq:
  "getDirectoryByPath h path create s =
     (case with_root h s of
        (Inl e, s1) \<Rightarrow> (Inl e, s1)
      | (Inr r, s1) \<Rightarrow> getDirectoryByPath_loop h create (segments path) r s1)"
  by (auto simp: getDirectoryByPath_def with_root_def await_def initialize_def
      initialize_begin_def initialize_resume_def segments_def split: option.splits)

lemma getDirectoryAndFileName_eq:
  "getDirectoryAndFileName h path s =
     (case with_root h s of
        (Inl e, s1) \<Rightarrow> (Inl e, s1)
      | (Inr r, s1) \<Rightarrow>
          (case getDirectoryByPath_loop h True
                  (filter (\<lambda>part. length part > 0) (butlast (split slash path))) r s1 of
             (Inl e, s2) \<Rightarrow> (Inl e, s2)
           | (Inr d, s2) \<Rightarrow> (Inr (d, last (split slash path)), s2)))"
proof -
  let ?parts = "butlast (split slash path)"
  have no: "\<And>x. x \<in> set ?parts \<Longrightarrow> slash \<notin> set x"
    using split_parts_no_sep [of _ slash path] by (auto dest: in_set_butlastD)
  have seg: "segments (join [slash] ?parts) = filter (\<lambda>part. length part > 0) ?parts"
    by (rule segments_join) (rule no)
  have empty: "join [slash] ?parts = [] \<Longrightarrow> filter (\<lambda>part. length part > 0) ?parts = []"
    by (auto simp: join_empty)
  have leaf: "or_else (Some (last (split slash path))) [] = last (split slash path)"
    by (simp add: or_else_def)
  show ?thesis
  proof (cases "with_root h s")
    case (Pair x s1)
    show ?thesis
    proof (cases x)
      case (Inl e)
      with Pair show ?thesis
        by (auto simp: getDirectoryAndFileName_def with_root_def await_def initialize_def
            initialize_begin_def initialize_resume_def split: option.splits if_splits)
    next
      case (Inr r)
      with Pair have r: "rootDirectory s1 = Some r" by (simp add: with_root_Inr)
      have wr: "with_root h s1 = (Inr r, s1)" using r by (simp add: with_root_def)
      have first: "getDirectoryAndFileName h path s =
          (if join [slash] ?parts \<noteq> []
           then await (getDirectoryByPath h (join [slash] ?parts) True)
                  (\<lambda>directory. resolve (directory, last (split slash path))) s1
           else (Inr (r, last (split slash path)), s1))"
        using Pair Inr
        by (auto simp: getDirectoryAndFileName_def with_root_def await_def initialize_def
            initialize_begin_def initialize_resume_def pop_split leaf Let_def
            split: option.splits if_splits)
      show ?thesis
      proof (cases "join [slash] ?parts = []")
        case True
        then show ?thesis using first Pair Inr empty by simp
      next
        case False
        then show ?thesis using first Pair Inr wr
          by (simp add: await_def resolve_def getDirectoryByPath_eq seg split: prod.splits sum.splits)
      qed
    qed
  qed
qed

lemma map_of_append_keep:
  "map_of es p = Some e \<Longrightarrow> map_of (es @ [(q, x)]) p = Some e"
  by (simp add: map_add_Some_iff)

lemma getDirectoryHandle_Inr:
  "getDirectoryHandle h d name create s = (Inr d', s') \<Longrightarrow>
     d' = d @ [name] \<and> valid_name h name \<and> map_of (entries s') (d @ [name]) = Some Directory"
  by (auto simp: getDirectoryHandle_def map_add_Some_iff split: if_splits option.splits entry.splits)

lemma getDirectoryHandle_keeps:
  "getDirectoryHandle h d name create s = (x, s') \<Longrightarrow>
     rootDirectory s' = rootDirectory s \<and>
     (map_of (entries s) p = Some e \<longrightarrow> map_of (entries s') p = Some e)"
  by (auto simp: getDirectoryHandle_def map_add_Some_iff split: if_splits option.splits entry.splits)

lemma loop_Inr:
  "getDirectoryByPath_loop h create parts cur s = (Inr d, s') \<Longrightarrow> d = cur @ parts"
proof (induction parts arbitrary: cur s)
  case Nil
  then show ?case by simp
next
  case (Cons part parts)
  obtain y s1 where g: "getDirectoryHandle h cur part create s = (y, s1)"
    by (cases "getDirectoryHandle h cur part create s")
  show ?case
  proof (cases y)
    case (Inl err)
    with Cons.prems g show ?thesis by simp
  next
    case (Inr d1)
    with g have d1: "d1 = cur @ [part]" by (auto dest: getDirectoryHandle_Inr)
    from Cons.prems g Inr have "getDirectoryByPath_loop h create parts d1 s1 = (Inr d, s')" by simp
    from Cons.IH [OF this] d1 show ?thesis by simp
  qed
qed

lemma loop_keeps:
  "getDirectoryByPath_loop h create parts cur s = (x, s') \<Longrightarrow>
     rootDirectory s' = rootDirectory s \<and>
     (map_of (entries s) p = Some e \<longrightarrow> map_of (entries s') p = Some e)"
proof (induction parts arbitrary: cur s)
  case Nil
  then show ?case by simp
next
  case (Cons part parts)
  obtain y s1 where g: "getDirectoryHandle h cur part create s = (y, s1)"
    by (cases "getDirectoryHandle h cur part create s")
  note k = getDirectoryHandle_keeps [OF g, of p e]
  show ?case
  proof (cases y)
    case (Inl err)
    with Cons.prems g k show ?thesis by simp
  next
    case (Inr d)
    with Cons.prems g have "getDirectoryByPath_loop h create parts d s1 = (x, s')" by simp
    from Cons.IH [OF this] k show ?thesis by simp
  qed
qed

text \<open>What a successful file lookup needs.\<close>

lemma getFileHandle_Inr:
  "getFileHandle h d name False s = (Inr f, s') \<Longrightarrow>
     s' = s \<and> valid_name h name \<and> (\<exists>bs. map_of (entries s) (d @ [name]) = Some (File bs))"
  by (auto simp: getFileHandle_def split: if_splits option.splits entry.splits)

lemma checkExists_total: "\<exists>b s'. checkExists h path s = (Inr b, s')"
  by (auto simp: checkExists_def try_catch_def await_def resolve_def split: prod.splits sum.splits)

lemma checkExists_True:
  "checkExists h path s = (Inr True, s') \<longleftrightarrow>
     (\<exists>d leaf f. getDirectoryAndFileName h path s = (Inr (d, leaf), s')
        \<and> getFileHandle h d leaf False s' = (Inr f, s'))"
  by (auto simp: checkExists_def try_catch_def await_def resolve_def
      split: prod.splits sum.splits dest: getFileHandle_Inr)

lemma with_root_initial:
  "rootDirectory s = None \<or> rootDirectory s = Some [] \<Longrightarrow> with_root h s = (Inr r, s1) \<Longrightarrow> r = []"
  by (auto simp: with_root_def split: option.splits if_splits)

lemma valid_name_not_empty: "valid_name h name \<Longrightarrow> name \<noteq> []"
  by (simp add: valid_name_def)

lemma resolved_location:
  assumes root: "rootDirectory s = None \<or> rootDirectory s = Some []"
    and res: "getDirectoryAndFileName h path s = (Inr (d, leaf), s')"
  shows "leaf = last (split slash path)"
    and "leaf \<noteq> [] \<Longrightarrow> d @ [leaf] = segments path"
    and "map_of (entries s) p = Some e \<Longrightarrow> map_of (entries s') p = Some e"
proof -
  let ?parts = "split slash path"
  let ?dsegs = "filter (\<lambda>part. length part > 0) (butlast ?parts)"
  obtain x s1 where w: "with_root h s = (x, s1)" by (cases "with_root h s")
  from res w obtain r where x: "x = Inr r"
    by (cases x) (auto simp: getDirectoryAndFileName_eq)
  have r: "r = []" using with_root_initial [OF root] w x by simp
  obtain y s2 where l: "getDirectoryByPath_loop h True ?dsegs r s1 = (y, s2)"
    by (cases "getDirectoryByPath_loop h True ?dsegs r s1")
  from res w x l have y: "y = Inr d" and s2: "s2 = s'" and leaf: "leaf = last ?parts"
    by (cases y; simp add: getDirectoryAndFileName_eq)+
  show "leaf = last (split slash path)" by (rule leaf)
  have d: "d = ?dsegs" using loop_Inr [of h True ?dsegs r s1 d s2] l y r by simp
  show "d @ [leaf] = segments path" if "leaf \<noteq> []"
    using that d leaf filter_butlast_last [of ?parts "\<lambda>part. length part > 0"]
    by (simp add: segments_def split_not_Nil)
  show "map_of (entries s') p = Some e" if "map_of (entries s) p = Some e"
    using that loop_keeps [of h True ?dsegs r s1 y s2 p e] l s2 with_root_entries [OF w] by simp
qed

lemma length_split: "length (split sep s) = Suc (length (filter (\<lambda>c. c = sep) s))"
proof (induction s)
  case Nil
  then show ?case by simp
next
  case (Cons c cs)
  have "split sep cs \<noteq> []" by (rule split_not_Nil)
  then show ?case using Cons by (cases "split sep cs") (auto simp: Let_def)
qed

lemma last_split_empty: "last (split slash p) = [] \<longleftrightarrow> p = [] \<or> last p = slash"
proof (induction p)
  case Nil
  then show ?case by simp
next
  case (Cons c cs)
  obtain x xs where r: "split slash cs = x # xs"
    using split_not_Nil [of slash cs] by (cases "split slash cs") auto
  show ?case
  proof (cases "c = slash")
    case True
    then show ?thesis using Cons.IH r by (auto simp: Let_def)
  next
    case c: False
    show ?thesis
    proof (cases "xs = []")
      case True
      then have "length (split slash cs) = 1" using r by simp
      then have "filter (\<lambda>c. c = slash) cs = []" by (simp add: length_split)
      then have "slash \<notin> set cs" by (auto simp: filter_empty_conv)
      then have "cs \<noteq> [] \<Longrightarrow> last cs \<noteq> slash" by (metis last_in_set)
      then show ?thesis using c r True by (auto simp: Let_def)
    next
      case False
      then have "cs \<noteq> []" using r by auto
      then show ?thesis using Cons.IH r False by (auto simp: Let_def)
    qed
  qed
qed

lemma parent_and_leaf:
  "last (split slash p) = [] \<Longrightarrow>
     filter (\<lambda>part. length part > 0) (butlast (split slash p)) = segments p"
  "last (split slash p) \<noteq> [] \<Longrightarrow>
     filter (\<lambda>part. length part > 0) (butlast (split slash p)) = butlast (segments p)
     \<and> last (split slash p) = last (segments p)"
  using filter_butlast_last [of "split slash p" "\<lambda>part. length part > 0"]
  by (simp_all add: segments_def split_not_Nil)

lemma is_directory_keeps:
  "is_directory es p \<Longrightarrow> (\<And>e. map_of es p = Some e \<Longrightarrow> map_of es' p = Some e) \<Longrightarrow> is_directory es' p"
  by (auto simp: is_directory_def)



section \<open>Concrete runs\<close>

lemmas run_defs = getDirectoryAndFileName_def getDirectoryByPath_def await_def resolve_def reject_def
      try_catch_def initialize_def initialize_begin_def initialize_resume_def isOPFSSupported_def
      browser_def fresh_def pop_def or_else_def getDirectoryHandle_def getFileHandle_def valid_name_def
      is_directory_def slash_def js_def Let_def dom_exception_def

lemma ascii_label: "get_an_encoding (js ''invalid_encoding'') = None"
  by (simp add: get_an_encoding_def trim_def ascii_whitespace_def ascii_lower_def
      utf8_labels_def legacy_labels_def js_def)

lemma utf8_label: "get_an_encoding (js ''utf8'') = Some UTF_8"
  by (simp add: get_an_encoding_def trim_def ascii_whitespace_def ascii_lower_def
      utf8_labels_def js_def)

lemma js_Nil: "js s = [] \<longleftrightarrow> s = []"
  by (simp add: js_def)

section \<open>The claims\<close>

subsection \<open>C1: writing below a directory that was never created\<close>

text \<open>
  C1. The specification expects \<open>writeFile('/no-such-dir/file.txt', 'x')\<close> to be rejected
  because \<open>/no-such-dir\<close> was never created, and the repository's edge test asserts the
  same. \<open>getDirectoryAndFileName\<close> resolves the parent with \<open>create = true\<close>: started on an
  empty storage, the call is fulfilled, and it has created the directory and the file.
\<close>

theorem writeFile_creates_missing_parent:
  "writeFile browser m (js ''/no-such-dir/file.txt'') (StringData (js ''x'')) Nothing None fresh
     = (Promise (Inr ()),
        \<lparr>rootDirectory = Some [],
         entries = [([js ''no-such-dir''], Directory),
                    ([js ''no-such-dir'', js ''file.txt''], File [0x78])]\<rparr>)"
  by (simp add: writeFile_def writeFileAsync_def normalize_arguments_def createWritable_def
      writable_write_def writable_close_def TextEncoder_encode_def utf8_encode_def utf8_bytes_def
      lone_def is_high_surrogate_def is_low_surrogate_def run_defs)

subsection \<open>C2: what a completion callback is called with\<close>

text \<open>
  C2, as stated, fails for \<open>exists\<close>. Its callback is called with the boolean alone:
  \<open>(true)\<close> for a file that is there, not \<open>(null, true)\<close>, and \<open>(false)\<close> for one that is
  not, not an error with a fallback.
\<close>

theorem exists_callback_counterexample:
  "exists browser (js ''/f.txt'') (Some (quiet 7))
       \<lparr>rootDirectory = Some [], entries = [([js ''f.txt''], File [])]\<rparr>
     = (Callbacks [(7, [Boolean True])] None,
        \<lparr>rootDirectory = Some [], entries = [([js ''f.txt''], File [])]\<rparr>)
   \<and> [Boolean True] \<noteq> [Null, Boolean True]
   \<and> exists browser (js ''/missing.txt'') (Some (quiet 7)) fresh
     = (Callbacks [(7, [Boolean False])] None, \<lparr>rootDirectory = Some [], entries = []\<rparr>)"
  by (simp add: exists_def checkExists_def quiet_def run_defs)

lemma normalize_chosen: "snd (normalize_arguments enc options callback) = chosen options callback"
  by (simp add: normalize_arguments_def chosen_def split: options_arg.splits)

lemma then_catch_calls:
  "(\<exists>x later unhandled. outcome = Inr x
       \<and> then_catch outcome cb fulfilled rejected
           = Callbacks ((ident cb, fulfilled x) # later) unhandled
       \<and> (thrown cb [] (fulfilled x) = None \<longrightarrow> later = [] \<and> unhandled = None)
       \<and> (\<forall>v. thrown cb [] (fulfilled x) = Some v \<longrightarrow> later = [(ident cb, rejected v)]
                        \<and> unhandled = thrown cb [fulfilled x] (rejected v)))
   \<or> (\<exists>err. outcome = Inl err
       \<and> then_catch outcome cb fulfilled rejected
           = Callbacks [(ident cb, rejected (JError err))] (thrown cb [] (rejected (JError err))))"
  by (cases outcome) (auto simp: then_catch_def split: option.splits)

text \<open>
  C2, amended. For \<open>readFile\<close>, \<open>writeFile\<close>, \<open>unlink\<close>, \<open>mkdir\<close> and \<open>readdir\<close> called with a
  completion callback: when the task succeeds, the callback is called with
  \<open>(null, result)\<close> (with \<open>null\<close> alone by the three that have no result); when the task
  fails, the callback is called with the error the task was rejected with, followed by
  the empty string for \<open>readFile\<close>, by the empty array for \<open>readdir\<close>, and by nothing for
  the other three, and that is its only call. The call on success is the only one if the
  callback returns from it; if the callback throws from it, the callback is called a
  second time, with the value it threw in the place of the error. What the last call
  throws is handled by nothing. \<open>exists\<close> calls its callback once with the boolean it
  found alone, and never with an error.
\<close>

theorem callback_convention:
  assumes "chosen ro callback = Some cb" and "chosen wo callback = Some cb"
    and "chosen mo callback = Some cb" and "chosen lo callback = Some cb"
  shows
    "(\<exists>s'. (\<exists>data later unhandled.
                readFileAsync h m path (fst (normalize_arguments encoding_of ro callback)) s = (Inr data, s')
              \<and> readFile h m path ro callback s
                  = (Callbacks ((ident cb, [Null, content_value data]) # later) unhandled, s')
              \<and> (thrown cb [] [Null, content_value data] = None \<longrightarrow> later = [] \<and> unhandled = None)
              \<and> (\<forall>v. thrown cb [] [Null, content_value data] = Some v
                      \<longrightarrow> later = [(ident cb, [v, JString []])]
                        \<and> unhandled = thrown cb [[Null, content_value data]] [v, JString []]))
          \<or> (\<exists>err.
                readFileAsync h m path (fst (normalize_arguments encoding_of ro callback)) s = (Inl err, s')
              \<and> readFile h m path ro callback s
                  = (Callbacks [(ident cb, [JError err, JString []])]
                       (thrown cb [] [JError err, JString []]), s')))
   \<and> (\<exists>s'. (\<exists>later unhandled.
                writeFileAsync h m path data (fst (normalize_arguments encoding_of wo callback)) s = (Inr (), s')
              \<and> writeFile h m path data wo callback s
                  = (Callbacks ((ident cb, [Null]) # later) unhandled, s')
              \<and> (thrown cb [] [Null] = None \<longrightarrow> later = [] \<and> unhandled = None)
              \<and> (\<forall>v. thrown cb [] [Null] = Some v \<longrightarrow> later = [(ident cb, [v])]
                        \<and> unhandled = thrown cb [[Null]] [v]))
          \<or> (\<exists>err.
                writeFileAsync h m path data (fst (normalize_arguments encoding_of wo callback)) s = (Inl err, s')
              \<and> writeFile h m path data wo callback s
                  = (Callbacks [(ident cb, [JError err])] (thrown cb [] [JError err]), s')))
   \<and> (\<exists>s'. (\<exists>later unhandled.
                unlinkFile h path s = (Inr (), s')
              \<and> unlink h path (Some cb) s = (Callbacks ((ident cb, [Null]) # later) unhandled, s')
              \<and> (thrown cb [] [Null] = None \<longrightarrow> later = [] \<and> unhandled = None)
              \<and> (\<forall>v. thrown cb [] [Null] = Some v \<longrightarrow> later = [(ident cb, [v])]
                        \<and> unhandled = thrown cb [[Null]] [v]))
          \<or> (\<exists>err.
                unlinkFile h path s = (Inl err, s')
              \<and> unlink h path (Some cb) s
                  = (Callbacks [(ident cb, [JError err])] (thrown cb [] [JError err]), s')))
   \<and> (\<exists>s'. (\<exists>later unhandled.
                createDir h path s = (Inr (), s')
              \<and> mkdir h path mo callback s = (Callbacks ((ident cb, [Null]) # later) unhandled, s')
              \<and> (thrown cb [] [Null] = None \<longrightarrow> later = [] \<and> unhandled = None)
              \<and> (\<forall>v. thrown cb [] [Null] = Some v \<longrightarrow> later = [(ident cb, [v])]
                        \<and> unhandled = thrown cb [[Null]] [v]))
          \<or> (\<exists>err.
                createDir h path s = (Inl err, s')
              \<and> mkdir h path mo callback s
                  = (Callbacks [(ident cb, [JError err])] (thrown cb [] [JError err]), s')))
   \<and> (\<exists>s'. (\<exists>files later unhandled.
                readDirectory h path s = (Inr files, s')
              \<and> readdir h path lo callback s
                  = (Callbacks ((ident cb, [Null, JArray files]) # later) unhandled, s')
              \<and> (thrown cb [] [Null, JArray files] = None \<longrightarrow> later = [] \<and> unhandled = None)
              \<and> (\<forall>v. thrown cb [] [Null, JArray files] = Some v
                      \<longrightarrow> later = [(ident cb, [v, JArray []])]
                        \<and> unhandled = thrown cb [[Null, JArray files]] [v, JArray []]))
          \<or> (\<exists>err.
                readDirectory h path s = (Inl err, s')
              \<and> readdir h path lo callback s
                  = (Callbacks [(ident cb, [JError err, JArray []])]
                       (thrown cb [] [JError err, JArray []]), s')))
   \<and> (\<exists>found s'. checkExists h path s = (Inr found, s')
              \<and> exists h path (Some cb) s
                  = (Callbacks [(ident cb, [Boolean found])] (thrown cb [] [Boolean found]), s'))"
proof (intro conjI)
  let ?enc = "fst (normalize_arguments encoding_of ro callback)"
  obtain enc where n: "normalize_arguments encoding_of ro callback = (enc, Some cb)"
    using assms(1) normalize_chosen [of encoding_of ro callback]
    by (cases "normalize_arguments encoding_of ro callback") simp
  then have enc: "?enc = enc" by simp
  obtain x s' where r: "readFileAsync h m path ?enc s = (x, s')"
    by (cases "readFileAsync h m path ?enc s")
  have op: "readFile h m path ro callback s
      = (then_catch x cb (\<lambda>data. [Null, content_value data]) (\<lambda>err. [err, JString []]), s')"
    using r n unfolding enc by (simp add: readFile_def)
  show "\<exists>s'. (\<exists>data later unhandled.
                readFileAsync h m path ?enc s = (Inr data, s')
              \<and> readFile h m path ro callback s
                  = (Callbacks ((ident cb, [Null, content_value data]) # later) unhandled, s')
              \<and> (thrown cb [] [Null, content_value data] = None \<longrightarrow> later = [] \<and> unhandled = None)
              \<and> (\<forall>v. thrown cb [] [Null, content_value data] = Some v
                      \<longrightarrow> later = [(ident cb, [v, JString []])]
                        \<and> unhandled = thrown cb [[Null, content_value data]] [v, JString []]))
          \<or> (\<exists>err.
                readFileAsync h m path ?enc s = (Inl err, s')
              \<and> readFile h m path ro callback s
                  = (Callbacks [(ident cb, [JError err, JString []])]
                       (thrown cb [] [JError err, JString []]), s'))"
    unfolding r op
    using then_catch_calls [of x cb "\<lambda>data. [Null, content_value data]" "\<lambda>err. [err, JString []]"]
    by auto
next
  let ?enc = "fst (normalize_arguments encoding_of wo callback)"
  obtain enc where n: "normalize_arguments encoding_of wo callback = (enc, Some cb)"
    using assms(2) normalize_chosen [of encoding_of wo callback]
    by (cases "normalize_arguments encoding_of wo callback") simp
  then have enc: "?enc = enc" by simp
  obtain x s' where r: "writeFileAsync h m path data ?enc s = (x, s')"
    by (cases "writeFileAsync h m path data ?enc s")
  have op: "writeFile h m path data wo callback s
      = (then_catch x cb (\<lambda>u. [Null]) (\<lambda>err. [err]), s')"
    using r n unfolding enc by (simp add: writeFile_def)
  show "\<exists>s'. (\<exists>later unhandled.
                writeFileAsync h m path data ?enc s = (Inr (), s')
              \<and> writeFile h m path data wo callback s
                  = (Callbacks ((ident cb, [Null]) # later) unhandled, s')
              \<and> (thrown cb [] [Null] = None \<longrightarrow> later = [] \<and> unhandled = None)
              \<and> (\<forall>v. thrown cb [] [Null] = Some v \<longrightarrow> later = [(ident cb, [v])]
                        \<and> unhandled = thrown cb [[Null]] [v]))
          \<or> (\<exists>err.
                writeFileAsync h m path data ?enc s = (Inl err, s')
              \<and> writeFile h m path data wo callback s
                  = (Callbacks [(ident cb, [JError err])] (thrown cb [] [JError err]), s'))"
    unfolding r op
    using then_catch_calls [of x cb "\<lambda>u. [Null]" "\<lambda>err. [err]"]
    by auto
next
  obtain x s' where r: "unlinkFile h path s = (x, s')" by (cases "unlinkFile h path s")
  have op: "unlink h path (Some cb) s = (then_catch x cb (\<lambda>u. [Null]) (\<lambda>err. [err]), s')"
    using r by (simp add: unlink_def)
  show "\<exists>s'. (\<exists>later unhandled.
                unlinkFile h path s = (Inr (), s')
              \<and> unlink h path (Some cb) s = (Callbacks ((ident cb, [Null]) # later) unhandled, s')
              \<and> (thrown cb [] [Null] = None \<longrightarrow> later = [] \<and> unhandled = None)
              \<and> (\<forall>v. thrown cb [] [Null] = Some v \<longrightarrow> later = [(ident cb, [v])]
                        \<and> unhandled = thrown cb [[Null]] [v]))
          \<or> (\<exists>err.
                unlinkFile h path s = (Inl err, s')
              \<and> unlink h path (Some cb) s
                  = (Callbacks [(ident cb, [JError err])] (thrown cb [] [JError err]), s'))"
    unfolding r op
    using then_catch_calls [of x cb "\<lambda>u. [Null]" "\<lambda>err. [err]"]
    by auto
next
  have c: "(case mo of Function f \<Rightarrow> (False, Some f)
             | Options given \<Rightarrow> ((case recursive_of given of None \<Rightarrow> False | Some r \<Rightarrow> r), callback)
             | EncodingString e \<Rightarrow> (False, callback)
             | Nothing \<Rightarrow> (False, callback)) = (opts, f) \<Longrightarrow> f = Some cb" for opts f
    using assms(3) by (auto simp: chosen_def split: options_arg.splits)
  obtain x s' where r: "createDir h path s = (x, s')" by (cases "createDir h path s")
  have op: "mkdir h path mo callback s = (then_catch x cb (\<lambda>u. [Null]) (\<lambda>err. [err]), s')"
    using r c by (auto simp: mkdir_def split: prod.splits)
  show "\<exists>s'. (\<exists>later unhandled.
                createDir h path s = (Inr (), s')
              \<and> mkdir h path mo callback s = (Callbacks ((ident cb, [Null]) # later) unhandled, s')
              \<and> (thrown cb [] [Null] = None \<longrightarrow> later = [] \<and> unhandled = None)
              \<and> (\<forall>v. thrown cb [] [Null] = Some v \<longrightarrow> later = [(ident cb, [v])]
                        \<and> unhandled = thrown cb [[Null]] [v]))
          \<or> (\<exists>err.
                createDir h path s = (Inl err, s')
              \<and> mkdir h path mo callback s
                  = (Callbacks [(ident cb, [JError err])] (thrown cb [] [JError err]), s'))"
    unfolding r op
    using then_catch_calls [of x cb "\<lambda>u. [Null]" "\<lambda>err. [err]"]
    by auto
next
  have c: "(case lo of Function f \<Rightarrow> Some f | _ \<Rightarrow> callback) = Some cb"
    using assms(4) by (simp add: chosen_def)
  obtain x s' where r: "readDirectory h path s = (x, s')" by (cases "readDirectory h path s")
  have op: "readdir h path lo callback s
      = (then_catch x cb (\<lambda>files. [Null, JArray files]) (\<lambda>err. [err, JArray []]), s')"
    using r c by (simp add: readdir_def)
  show "\<exists>s'. (\<exists>files later unhandled.
                readDirectory h path s = (Inr files, s')
              \<and> readdir h path lo callback s
                  = (Callbacks ((ident cb, [Null, JArray files]) # later) unhandled, s')
              \<and> (thrown cb [] [Null, JArray files] = None \<longrightarrow> later = [] \<and> unhandled = None)
              \<and> (\<forall>v. thrown cb [] [Null, JArray files] = Some v
                      \<longrightarrow> later = [(ident cb, [v, JArray []])]
                        \<and> unhandled = thrown cb [[Null, JArray files]] [v, JArray []]))
          \<or> (\<exists>err.
                readDirectory h path s = (Inl err, s')
              \<and> readdir h path lo callback s
                  = (Callbacks [(ident cb, [JError err, JArray []])]
                       (thrown cb [] [JError err, JArray []]), s'))"
    unfolding r op
    using then_catch_calls [of x cb "\<lambda>files. [Null, JArray files]" "\<lambda>err. [err, JArray []]"]
    by auto
next
  show "\<exists>found s'. checkExists h path s = (Inr found, s')
              \<and> exists h path (Some cb) s
                  = (Callbacks [(ident cb, [Boolean found])] (thrown cb [] [Boolean found]), s')"
    using checkExists_total [of h path s] by (auto simp: exists_def)
qed

text \<open>
  The convention on the uninitialized program, for a callback that throws from its first
  call: \<open>mkdir('/a', cb)\<close> succeeds and calls it with \<open>(null)\<close> and then with what it
  threw; \<open>exists('/a', cb)\<close> calls it once, with \<open>(false)\<close>, and what it throws is left
  unhandled.
\<close>

theorem callback_convention_witness:
  "chosen (EncodingString (js ''utf8'') :: ReadFileOptions options_arg) (Some (hasty 5)) = Some (hasty 5)
   \<and> chosen (Nothing :: WriteFileOptions options_arg) (Some (hasty 5)) = Some (hasty 5)
   \<and> chosen (Function (hasty 5) :: MkdirOptions options_arg) (Some (hasty 5)) = Some (hasty 5)
   \<and> chosen (Function (hasty 5) :: ReaddirOptions options_arg) (Some (hasty 5)) = Some (hasty 5)
   \<and> mkdir browser (js ''/a'') (Function (hasty 5)) (Some (hasty 5)) fresh
       = (Callbacks [(5, [Null]), (5, [JString (js ''boom'')])] None,
          \<lparr>rootDirectory = Some [], entries = [([js ''a''], Directory)]\<rparr>)
   \<and> exists browser (js ''/a'') (Some (hasty 5)) fresh
       = (Callbacks [(5, [Boolean False])] (Some (JString (js ''boom''))),
          \<lparr>rootDirectory = Some [], entries = []\<rparr>)"
proof -
  have a: "chosen (EncodingString (js ''utf8'') :: ReadFileOptions options_arg) (Some (hasty 5)) = Some (hasty 5)"
    and b: "chosen (Nothing :: WriteFileOptions options_arg) (Some (hasty 5)) = Some (hasty 5)"
    and c: "chosen (Function (hasty 5) :: MkdirOptions options_arg) (Some (hasty 5)) = Some (hasty 5)"
    and d: "chosen (Function (hasty 5) :: ReaddirOptions options_arg) (Some (hasty 5)) = Some (hasty 5)"
    by (simp_all add: chosen_def)
  have made: "createDir browser (js ''/a'') fresh
      = (Inr (), \<lparr>rootDirectory = Some [], entries = [([js ''a''], Directory)]\<rparr>)"
    by (simp add: createDir_def run_defs)
  have absent: "checkExists browser (js ''/a'') fresh
      = (Inr False, \<lparr>rootDirectory = Some [], entries = []\<rparr>)"
    by (simp add: checkExists_def run_defs)
  have t: "thrown (hasty 5) [] [Null] = Some (JString (js ''boom''))"
    and u: "thrown (hasty 5) [[Null]] [JString (js ''boom'')] = None"
    and v: "thrown (hasty 5) [] [Boolean False] = Some (JString (js ''boom''))"
    and i: "ident (hasty 5) = 5"
    by (simp_all add: hasty_def)
  from callback_convention [OF a b c d, of browser Object_module "js ''/a''" fresh "StringData []"]
  have m: "mkdir browser (js ''/a'') (Function (hasty 5)) (Some (hasty 5)) fresh
       = (Callbacks [(5, [Null]), (5, [JString (js ''boom'')])] None,
          \<lparr>rootDirectory = Some [], entries = [([js ''a''], Directory)]\<rparr>)"
    and e: "exists browser (js ''/a'') (Some (hasty 5)) fresh
       = (Callbacks [(5, [Boolean False])] (Some (JString (js ''boom''))),
          \<lparr>rootDirectory = Some [], entries = []\<rparr>)"
    unfolding made absent i using t u v by auto
  show ?thesis using a b c d m e by blast
qed

subsection \<open>C3: \<open>mkdir\<close> and its \<open>recursive\<close> option\<close>




subsection \<open>C4: paths with the same segments\<close>

lemma same_directory:
  assumes seg: "segments p = segments q"
  shows "getDirectoryByPath h p create = getDirectoryByPath h q create"
proof
  fix s
  show "getDirectoryByPath h p create s = getDirectoryByPath h q create s"
    unfolding getDirectoryByPath_eq seg by simp
qed

lemma same_parent_and_leaf:
  assumes seg: "segments p = segments q"
    and tr: "(p = [] \<or> last p = slash) = (q = [] \<or> last q = slash)"
  shows "getDirectoryAndFileName h p = getDirectoryAndFileName h q"
proof
  fix s
  have e: "(last (split slash p) = []) = (last (split slash q) = [])"
    using tr by (simp add: last_split_empty)
  have same: "filter (\<lambda>part. length part > 0) (butlast (split slash p))
      = filter (\<lambda>part. length part > 0) (butlast (split slash q))
      \<and> last (split slash p) = last (split slash q)"
  proof (cases "last (split slash p) = []")
    case True
    then show ?thesis using e seg parent_and_leaf(1) [of p] parent_and_leaf(1) [of q] by simp
  next
    case False
    then show ?thesis using e seg parent_and_leaf(2) [of p] parent_and_leaf(2) [of q] by simp
  qed
  have a: "filter (\<lambda>part. length part > 0) (butlast (split slash p))
      = filter (\<lambda>part. length part > 0) (butlast (split slash q))"
    and b: "last (split slash p) = last (split slash q)"
    using same by blast+
  show "getDirectoryAndFileName h p s = getDirectoryAndFileName h q s"
    unfolding getDirectoryAndFileName_eq a b by simp
qed

text \<open>
  C4, as stated, fails for a trailing slash. \<open>/a/b.txt/\<close> and \<open>/a/b.txt\<close> have the same
  non-empty segments, but \<open>getDirectoryAndFileName\<close> takes the part after the last slash
  as the leaf: the first path resolves to the empty leaf name under \<open>/a/b.txt\<close>, which
  it creates as a directory, the second to the leaf \<open>b.txt\<close> under \<open>/a\<close>.
\<close>

theorem trailing_slash_counterexample:
  "segments (js ''/a/b.txt/'') = segments (js ''/a/b.txt'')
   \<and> getDirectoryAndFileName browser (js ''/a/b.txt/'') fresh
     = (Inr ([js ''a'', js ''b.txt''], []),
        \<lparr>rootDirectory = Some [],
         entries = [([js ''a''], Directory), ([js ''a'', js ''b.txt''], Directory)]\<rparr>)
   \<and> getDirectoryAndFileName browser (js ''/a/b.txt'') fresh
     = (Inr ([js ''a''], js ''b.txt''),
        \<lparr>rootDirectory = Some [], entries = [([js ''a''], Directory)]\<rparr>)"
  by (simp add: segments_def run_defs)

text \<open>
  C4, amended. Two paths with the same sequence of non-empty segments resolve through
  \<open>getDirectoryByPath\<close> to the same directory handle, with the same effect on the
  storage, so \<open>mkdir\<close> and \<open>readdir\<close> behave identically on the two, whatever slashes
  are repeated or trail. If the two paths also agree on ending in a slash (the empty path
  counts as ending in one), they resolve through \<open>getDirectoryAndFileName\<close> to the same
  parent directory handle and the same leaf name, with the same effect on the storage,
  so \<open>readFile\<close>, \<open>writeFile\<close>, \<open>exists\<close> and \<open>unlink\<close> behave identically on the two.
\<close>

theorem same_segments_same_resolution:
  assumes seg: "segments p = segments q"
  shows "getDirectoryByPath h p create s = getDirectoryByPath h q create s
      \<and> mkdir h p mo callback s = mkdir h q mo callback s
      \<and> readdir h p lo callback s = readdir h q lo callback s
      \<and> ((p = [] \<or> last p = slash) = (q = [] \<or> last q = slash)
          \<longrightarrow> getDirectoryAndFileName h p s = getDirectoryAndFileName h q s
            \<and> readFile h m p ro callback s = readFile h m q ro callback s
            \<and> writeFile h m p data wo callback s = writeFile h m q data wo callback s
            \<and> exists h p callback s = exists h q callback s
            \<and> unlink h p callback s = unlink h q callback s)"
proof (intro conjI impI)
  have dir: "getDirectoryByPath h p c = getDirectoryByPath h q c" for c
    using seg by (rule same_directory)
  show "getDirectoryByPath h p create s = getDirectoryByPath h q create s"
    by (simp add: dir)
  show "mkdir h p mo callback s = mkdir h q mo callback s"
    by (simp add: dir mkdir_def createDir_def)
  show "readdir h p lo callback s = readdir h q lo callback s"
    by (simp add: dir readdir_def readDirectory_def)
next
  assume tr: "(p = [] \<or> last p = slash) = (q = [] \<or> last q = slash)"
  have parent: "getDirectoryAndFileName h p = getDirectoryAndFileName h q"
    using seg tr by (rule same_parent_and_leaf)
  show "getDirectoryAndFileName h p s = getDirectoryAndFileName h q s"
    by (simp add: parent)
  show "readFile h m p ro callback s = readFile h m q ro callback s"
    by (simp add: parent readFile_def readFileAsync_def)
  show "writeFile h m p data wo callback s = writeFile h m q data wo callback s"
    by (simp add: parent writeFile_def writeFileAsync_def)
  show "exists h p callback s = exists h q callback s"
    by (simp add: parent exists_def checkExists_def)
  show "unlink h p callback s = unlink h q callback s"
    by (simp add: parent unlink_def unlinkFile_def)
qed

text \<open>
  The paths \<open>/a/b/\<close> and \<open>/a/b\<close>, which differ by a trailing slash, for \<open>mkdir\<close> and
  \<open>readdir\<close>, and the paths \<open>/a//b.txt\<close> and \<open>/a/b.txt\<close> of the specification for the
  resolution of a file.
\<close>

theorem same_segments_same_resolution_witness:
  "segments (js ''/a/b/'') = segments (js ''/a/b'')
   \<and> getDirectoryByPath browser (js ''/a/b/'') True fresh
       = getDirectoryByPath browser (js ''/a/b'') True fresh
   \<and> mkdir browser (js ''/a/b/'') Nothing None fresh = mkdir browser (js ''/a/b'') Nothing None fresh
   \<and> readdir browser (js ''/a/b/'') Nothing None fresh = readdir browser (js ''/a/b'') Nothing None fresh
   \<and> segments (js ''/a//b.txt'') = segments (js ''/a/b.txt'')
   \<and> (js ''/a//b.txt'' = [] \<or> last (js ''/a//b.txt'') = slash)
       = (js ''/a/b.txt'' = [] \<or> last (js ''/a/b.txt'') = slash)
   \<and> getDirectoryAndFileName browser (js ''/a//b.txt'') fresh
       = getDirectoryAndFileName browser (js ''/a/b.txt'') fresh
   \<and> exists browser (js ''/a//b.txt'') None fresh = exists browser (js ''/a/b.txt'') None fresh"
proof -
  have a: "segments (js ''/a/b/'') = segments (js ''/a/b'')"
    by (simp add: segments_def slash_def js_def)
  have b: "segments (js ''/a//b.txt'') = segments (js ''/a/b.txt'')"
    by (simp add: segments_def slash_def js_def)
  have c: "(js ''/a//b.txt'' = [] \<or> last (js ''/a//b.txt'') = slash)
       = (js ''/a/b.txt'' = [] \<or> last (js ''/a/b.txt'') = slash)"
    by (simp add: slash_def js_def)
  show ?thesis
    using a b c
      same_segments_same_resolution [OF a, of browser True fresh Nothing None Nothing]
      same_segments_same_resolution [OF b, of browser True fresh Nothing None Nothing
        Object_module Nothing "StringData []" Nothing]
    by blast
qed

subsection \<open>C5: \<open>toString\<close> with an encoding that is not \<open>base64\<close>\<close>

text \<open>
  The \<open>toString\<close> of the object module falls back to UTF-8 for every encoding but
  \<open>base64\<close>, and cannot fail then.
\<close>

lemma object_toString_falls_back:
  "encoding \<noteq> Some (js ''base64'') \<Longrightarrow> Buffer_toString h this encoding = Inr (utf8_decode this)"
  by (cases encoding) (simp_all add: Buffer_toString_def js_def)

text \<open>
  C5. The specification has \<open>toString\<close> of every byte container fall back to UTF-8 on an
  encoding other than \<open>base64\<close>, and never fail; the buffer test expects
  \<open>toString('invalid_encoding')\<close> to give the text back. The object module does so. The
  class \<open>Buffer\<close> hands the encoding to the \<open>TextDecoder\<close> constructor, which raises
  \<open>RangeError\<close> for a label it does not know: on the container of \<open>Hello World\<close> the
  class fails where the object module returns the text.
\<close>

theorem class_toString_rejects_unknown_label:
  "Buffer_class_toString h (Buffer_class_from (Text (js ''Hello World'')) None)
       (Some (js ''invalid_encoding''))
     = Inl (RangeError (host_message h ''RangeError''))
   \<and> Buffer_from h (Text (js ''Hello World'')) None = Inr (TextEncoder_encode (js ''Hello World''))
   \<and> Buffer_toString h (TextEncoder_encode (js ''Hello World'')) (Some (js ''invalid_encoding''))
     = Inr (js ''Hello World'')"
proof -
  have wf: "well_formed (js ''Hello World'')"
    by (simp add: js_def is_high_surrogate_def is_low_surrogate_def)
  have "js ''invalid_encoding'' \<noteq> js ''base64''" by (simp add: js_def)
  then have "Buffer_toString h (TextEncoder_encode (js ''Hello World''))
      (Some (js ''invalid_encoding'')) = Inr (drop_bom (js ''Hello World''))"
    using roundtrip [OF wf] by (simp add: object_toString_falls_back)
  moreover have "drop_bom (js ''Hello World'') = js ''Hello World''"
    by (simp add: drop_bom_def js_def)
  ultimately show ?thesis
    by (simp add: Buffer_class_toString_def TextDecoder_new_def ascii_label or_else_def js_Nil
        Buffer_from_def)
qed

subsection \<open>C6: the UTF-8 round trip\<close>

lemma utf8_not_base64: "js ''utf8'' \<noteq> js ''base64''"
  by (simp add: js_def)

lemma from_then_toString_eq: "from_then_toString h m s = Inr (utf8_decode (TextEncoder_encode s))"
  by (cases m)
    (simp_all add: from_then_toString_def module_from_def module_toString_def Buffer_from_def
      Buffer_toString_def Buffer_class_from_def Buffer_class_toString_def TextDecoder_new_def
      TextDecoder_decode_def utf8_label or_else_def js_Nil utf8_not_base64)

text \<open>
  C6, as stated, fails for a string that begins with U+FEFF. The string of U+FEFF and
  \<open>a\<close> is well-formed; \<open>from\<close> encodes it to \<open>EF BB BF 61\<close>, and the decoder of
  \<open>toString\<close>, which does not ignore the byte order mark, returns \<open>a\<close> alone.
\<close>

theorem byte_order_mark_counterexample:
  "well_formed [0xFEFF, 0x61]
   \<and> from_then_toString browser Object_module [0xFEFF, 0x61] = Inr [0x61]
   \<and> from_then_toString browser Class_module [0xFEFF, 0x61] = Inr [0x61]"
  by (simp add: from_then_toString_eq roundtrip drop_bom_def is_high_surrogate_def is_low_surrogate_def)

text \<open>
  C6, amended. For every well-formed Unicode string \<open>s\<close> that does not begin with
  U+FEFF, \<open>Buffer.from(s, 'utf8').toString('utf8')\<close> is exactly \<open>s\<close>; for one that does,
  it is \<open>s\<close> without that first code unit. This holds for both \<open>Buffer\<close> modules.
\<close>

theorem utf8_round_trip:
  "well_formed s \<Longrightarrow>
     from_then_toString h m s = Inr (case s of [] \<Rightarrow> [] | u # r \<Rightarrow> if u = 0xFEFF then r else s)"
  by (simp add: from_then_toString_eq roundtrip drop_bom_def)

text \<open>A string of a letter, a kana and a character outside the basic plane.\<close>

theorem utf8_round_trip_witness:
  "well_formed [0x48, 0x3042, 0xD83D, 0xDE80]
   \<and> from_then_toString browser Object_module [0x48, 0x3042, 0xD83D, 0xDE80]
       = Inr [0x48, 0x3042, 0xD83D, 0xDE80]"
  using utf8_round_trip [of "[0x48, 0x3042, 0xD83D, 0xDE80]" browser Object_module]
  by (simp add: is_high_surrogate_def is_low_surrogate_def)

subsection \<open>C7: \<open>exists\<close> never rejects\<close>


subsection \<open>C8: first resolutions that overlap\<close>

text \<open>
  C8, as stated, fails: there is no initialization in flight that later callers
  await. Two resolutions that start on the uninitialized program one after the other,
  as two calls made in a row do, both call \<open>getDirectory()\<close>, and each assigns
  \<open>rootDirectory\<close> when its call settles: two requests and two assignments.
\<close>

theorem two_resolutions_counterexample:
  "resolutions (run browser [0, 1] (overlapping fresh 2)) = [Awaiting, Awaiting]
   \<and> run browser [0, 1, 0, 1] (overlapping fresh 2)
       = \<lparr>shared = \<lparr>rootDirectory = Some [], entries = []\<rparr>, resolutions = [Assigned, Assigned]\<rparr>
   \<and> requests (resolutions (run browser [0, 1, 0, 1] (overlapping fresh 2))) = 2
   \<and> assignments (resolutions (run browser [0, 1, 0, 1] (overlapping fresh 2))) = 2"
  by (simp add: run_def step_def advance_def overlapping_def requests_def assignments_def
      initialize_begin_def initialize_resume_def isOPFSSupported_def browser_def fresh_def
      numeral_2_eq_2)

lemma run_snoc: "run h (schedule @ [i]) c = step h i (run h schedule c)"
  by (simp add: run_def)

lemma run_append: "run h (xs @ ys) c = run h ys (run h xs c)"
  by (simp add: run_def)

lemma step_start:
  "i < length rs \<Longrightarrow> rs ! i = NotStarted \<Longrightarrow> isOPFSSupported h \<Longrightarrow> rootDirectory s = None \<Longrightarrow>
     step h i \<lparr>shared = s, resolutions = rs\<rparr> = \<lparr>shared = s, resolutions = rs[i := Awaiting]\<rparr>"
  by (simp add: step_def advance_def initialize_begin_def)

lemma step_settle:
  "i < length rs \<Longrightarrow> rs ! i = Awaiting \<Longrightarrow> getDirectory_error h = None \<Longrightarrow>
     step h i \<lparr>shared = s, resolutions = rs\<rparr>
       = \<lparr>shared = s\<lparr>rootDirectory := Some []\<rparr>, resolutions = rs[i := Assigned]\<rparr>"
  by (simp add: step_def advance_def initialize_resume_def)

lemma step_settled:
  "i < length rs \<Longrightarrow> rs ! i = Assigned \<Longrightarrow>
     step h i \<lparr>shared = s, resolutions = rs\<rparr> = \<lparr>shared = s, resolutions = rs\<rparr>"
  using list_update_id [of rs i] by (simp add: step_def advance_def)

lemma update_map_upt:
  "a < n \<Longrightarrow> (map f [0..<n])[a := v] = map (f(a := v)) [0..<n]"
  by (rule nth_equalityI) (auto simp: nth_list_update)

lemma start_phase:
  assumes "isOPFSSupported h" "rootDirectory s = None"
  shows "distinct starts \<Longrightarrow> set starts \<subseteq> {0..<n} \<Longrightarrow>
     run h starts (overlapping s n)
       = \<lparr>shared = s,
          resolutions = map (\<lambda>i. if i \<in> set starts then Awaiting else NotStarted) [0..<n]\<rparr>"
proof (induction starts rule: rev_induct)
  case Nil
  then show ?case by (simp add: run_def overlapping_def map_replicate_const)
next
  case (snoc a starts)
  let ?f = "\<lambda>i. if i \<in> set starts then Awaiting else NotStarted"
  have a: "a < n" "a \<notin> set starts" using snoc.prems by auto
  have "run h (starts @ [a]) (overlapping s n)
      = step h a \<lparr>shared = s, resolutions = map ?f [0..<n]\<rparr>"
    using snoc by (simp add: run_snoc)
  also have "\<dots> = \<lparr>shared = s, resolutions = (map ?f [0..<n])[a := Awaiting]\<rparr>"
    by (rule step_start) (use a assms in simp_all)
  also have "(map ?f [0..<n])[a := Awaiting]
      = map (\<lambda>i. if i \<in> set (starts @ [a]) then Awaiting else NotStarted) [0..<n]"
    unfolding update_map_upt [OF a(1)] by (rule map_cong) auto
  finally show ?case .
qed

lemma settle_phase:
  assumes "getDirectory_error h = None"
  shows "set settles \<subseteq> {0..<n} \<Longrightarrow>
     run h settles \<lparr>shared = s, resolutions = replicate n Awaiting\<rparr>
       = \<lparr>shared = (if settles = [] then s else s\<lparr>rootDirectory := Some []\<rparr>),
          resolutions = map (\<lambda>i. if i \<in> set settles then Assigned else Awaiting) [0..<n]\<rparr>"
proof (induction settles rule: rev_induct)
  case Nil
  then show ?case by (simp add: run_def map_replicate_const)
next
  case (snoc a settles)
  let ?f = "\<lambda>i. if i \<in> set settles then Assigned else Awaiting"
  let ?g = "\<lambda>i. if i \<in> set (settles @ [a]) then Assigned else Awaiting"
  let ?s = "if settles = [] then s else s\<lparr>rootDirectory := Some []\<rparr>"
  have a: "a < n" using snoc.prems by auto
  have sub: "set settles \<subseteq> {0..<n}" using snoc.prems by auto
  have r: "run h (settles @ [a]) \<lparr>shared = s, resolutions = replicate n Awaiting\<rparr>
      = step h a \<lparr>shared = ?s, resolutions = map ?f [0..<n]\<rparr>"
    unfolding run_snoc snoc.IH [OF sub] ..
  have final: "(if settles @ [a] = [] then s else s\<lparr>rootDirectory := Some []\<rparr>)
      = s\<lparr>rootDirectory := Some []\<rparr>" by simp
  show ?case
  proof (cases "a \<in> set settles")
    case True
    then have ne: "?s = s\<lparr>rootDirectory := Some []\<rparr>" by auto
    have st: "step h a \<lparr>shared = ?s, resolutions = map ?f [0..<n]\<rparr>
        = \<lparr>shared = ?s, resolutions = map ?f [0..<n]\<rparr>"
      by (rule step_settled) (use a True in simp_all)
    have m: "map ?f [0..<n] = map ?g [0..<n]"
      by (rule map_cong) (use True in auto)
    show ?thesis unfolding r st final unfolding ne m ..
  next
    case False
    have st: "step h a \<lparr>shared = ?s, resolutions = map ?f [0..<n]\<rparr>
        = \<lparr>shared = ?s\<lparr>rootDirectory := Some []\<rparr>, resolutions = (map ?f [0..<n])[a := Assigned]\<rparr>"
      by (rule step_settle) (use a False assms in simp_all)
    have sh: "?s\<lparr>rootDirectory := Some []\<rparr> = s\<lparr>rootDirectory := Some []\<rparr>" by simp
    have m: "(map ?f [0..<n])[a := Assigned] = map ?g [0..<n]"
      unfolding update_map_upt [OF a] by (rule map_cong) auto
    show ?thesis unfolding r st final unfolding sh m ..
  qed
qed

lemma all_of: "set xs = {0..<n} \<Longrightarrow> map (\<lambda>i. if i \<in> set xs then a else b) [0..<n] = replicate n a"
proof -
  assume s: "set xs = {0..<n}"
  have "map (\<lambda>i. if i \<in> set xs then a else b) [0..<n] = map (\<lambda>i. a) [0..<n]"
    by (rule map_cong) (use s in auto)
  then show ?thesis by (simp add: map_replicate_const)
qed

lemma count_replicate:
  "requests (replicate n Awaiting) = n" "assignments (replicate n Awaiting) = 0"
  "requests (replicate n Assigned) = n" "assignments (replicate n Assigned) = n"
  by (simp_all add: requests_def assignments_def)

text \<open>
  C8, amended. Initialization has no guard. Where the browser has the storage API and
  \<open>getDirectory()\<close> resolves, \<open>n\<close> resolutions that start, in any order, while
  \<open>rootDirectory\<close> is still null each call \<open>getDirectory()\<close>, so that \<open>n\<close> calls are in
  flight at once; in whatever order the calls settle, each resolution assigns
  \<open>rootDirectory\<close> when its own call has settled: \<open>n\<close> requests and \<open>n\<close> assignments,
  each of the handle of the one root of the storage. A resolution that starts after an
  assignment reuses \<open>rootDirectory\<close> and makes no request.
\<close>

theorem every_overlapping_resolution_initializes:
  assumes h: "isOPFSSupported h" "getDirectory_error h = None"
    and s: "rootDirectory s = None"
    and starts: "distinct starts" "set starts = {0..<n}"
    and settles: "set settles = {0..<n}"
    and n: "0 < n"
  shows "run h starts (overlapping s n) = \<lparr>shared = s, resolutions = replicate n Awaiting\<rparr>
       \<and> run h (starts @ settles) (overlapping s n)
           = \<lparr>shared = s\<lparr>rootDirectory := Some []\<rparr>, resolutions = replicate n Assigned\<rparr>
       \<and> requests (resolutions (run h (starts @ settles) (overlapping s n))) = n
       \<and> assignments (resolutions (run h (starts @ settles) (overlapping s n))) = n
       \<and> advance h NotStarted (s\<lparr>rootDirectory := Some []\<rparr>)
           = (Reused, s\<lparr>rootDirectory := Some []\<rparr>)"
proof -
  have sub: "set starts \<subseteq> {0..<n}" "set settles \<subseteq> {0..<n}"
    using starts(2) settles by simp_all
  have a: "run h starts (overlapping s n) = \<lparr>shared = s, resolutions = replicate n Awaiting\<rparr>"
    unfolding start_phase [OF h(1) s starts(1) sub(1)] all_of [OF starts(2)] ..
  have ne: "settles \<noteq> []" using settles n by auto
  have b: "run h (starts @ settles) (overlapping s n)
      = \<lparr>shared = s\<lparr>rootDirectory := Some []\<rparr>, resolutions = replicate n Assigned\<rparr>"
    unfolding run_append a settle_phase [OF h(2) sub(2)] all_of [OF settles] using ne by simp
  have c: "advance h NotStarted (s\<lparr>rootDirectory := Some []\<rparr>)
      = (Reused, s\<lparr>rootDirectory := Some []\<rparr>)"
    by (simp add: advance_def)
  show ?thesis unfolding b using a c by (simp add: count_replicate)
qed

text \<open>
  Three resolutions that start in the order 2, 0, 1 and settle in the order 1, 0, 2; the
  second step of the settled resolution 1 does nothing.
\<close>

theorem every_overlapping_resolution_initializes_witness:
  "isOPFSSupported browser \<and> getDirectory_error browser = None \<and> rootDirectory fresh = None
   \<and> distinct [2, 0, 1 :: nat] \<and> set [2, 0, 1] = {0..<3 :: nat}
   \<and> set [1, 1, 0, 2] = {0..<3 :: nat}
   \<and> requests (resolutions (run browser ([2, 0, 1] @ [1, 1, 0, 2]) (overlapping fresh 3))) = 3
   \<and> assignments (resolutions (run browser ([2, 0, 1] @ [1, 1, 0, 2]) (overlapping fresh 3))) = 3"
proof -
  have a: "isOPFSSupported browser" and b: "getDirectory_error browser = None"
    by (simp_all add: isOPFSSupported_def browser_def)
  have c: "rootDirectory fresh = None" by (simp add: fresh_def)
  have d: "distinct [2, 0, 1 :: nat]" by simp
  have e: "set [2, 0, 1] = {0..<3 :: nat}" and f: "set [1, 1, 0, 2] = {0..<3 :: nat}" by auto
  have g: "0 < (3 :: nat)" by simp
  show ?thesis
    using a b c d e f every_overlapping_resolution_initializes [OF a b c d e f g] by blast
qed

subsection \<open>C9: the constants table\<close>

text \<open>
  C9. The specification lists \<open>F_OK\<close>, \<open>R_OK\<close>, \<open>W_OK\<close>, \<open>X_OK\<close> and seven \<open>O_\<close> flags in the
  exported table. The table of \<open>fs.ts\<close> holds the first four with the values stated, and
  none of \<open>O_RDONLY\<close>, \<open>O_WRONLY\<close>, \<open>O_RDWR\<close>, \<open>O_CREAT\<close>, \<open>O_EXCL\<close>, \<open>O_TRUNC\<close>,
  \<open>O_APPEND\<close>: reading one of them gives \<open>undefined\<close>, where \<open>index.test.ts\<close> expects the
  numbers 0, 1, 2, 64, 128, 512 and 1024.
\<close>

theorem constants_lack_open_flags:
  "map (map_of constants) [''F_OK'', ''R_OK'', ''W_OK'', ''X_OK'']
     = [Some 0, Some 4, Some 2, Some 1]
   \<and> map (map_of constants)
       [''O_RDONLY'', ''O_WRONLY'', ''O_RDWR'', ''O_CREAT'', ''O_EXCL'', ''O_TRUNC'', ''O_APPEND'']
     = [None, None, None, None, None, None, None]"
  by (simp add: constants_def)

subsection \<open>C10: \<open>exists\<close> on a directory\<close>

text \<open>
  C10. In a state whose \<open>rootDirectory\<close> is unset or the root, for every path whose
  segments name a directory (the root itself when there is none), \<open>exists(path)\<close> gives
  false, as a promise and to a callback: the lookup is \<open>getFileHandle\<close>, which a
  directory does not answer.
\<close>

theorem exists_false_for_directory:
  assumes root: "rootDirectory s = None \<or> rootDirectory s = Some []"
    and dir: "is_directory (entries s) (segments path)"
  shows "fst (exists h path None s) = Promise (Inr False)
      \<and> fst (exists h path (Some f) s)
          = Callbacks [(ident f, [Boolean False])] (thrown f [] [Boolean False])"
proof -
  obtain found s' where c: "checkExists h path s = (Inr found, s')"
    using checkExists_total by blast
  have "\<not> found"
  proof
    assume found
    with c obtain d leaf fh where res: "getDirectoryAndFileName h path s = (Inr (d, leaf), s')"
      and fh: "getFileHandle h d leaf False s' = (Inr fh, s')"
      using checkExists_True [of h path s s'] by auto
    from getFileHandle_Inr [OF fh] obtain bs where
      valid: "valid_name h leaf" and isfile: "map_of (entries s') (d @ [leaf]) = Some (File bs)"
      by auto
    have leaf: "leaf \<noteq> []" using valid by (rule valid_name_not_empty)
    have loc: "d @ [leaf] = segments path" using resolved_location(2) [OF root res leaf] .
    then have "segments path \<noteq> []" by (metis snoc_eq_iff_butlast)
    with dir have "map_of (entries s) (segments path) = Some Directory"
      by (simp add: is_directory_def)
    then have "map_of (entries s') (segments path) = Some Directory"
      by (rule resolved_location(3) [OF root res])
    with isfile loc show False by simp
  qed
  with c show ?thesis by (simp add: exists_def)
qed

text \<open>\<open>exists('/docs')\<close> where \<open>/docs\<close> is a directory.\<close>

theorem exists_false_for_directory_witness:
  "(rootDirectory \<lparr>rootDirectory = Some [], entries = [([js ''docs''], Directory)]\<rparr> = None
      \<or> rootDirectory \<lparr>rootDirectory = Some [], entries = [([js ''docs''], Directory)]\<rparr> = Some [])
   \<and> is_directory (entries \<lparr>rootDirectory = Some [], entries = [([js ''docs''], Directory)]\<rparr>)
         (segments (js ''/docs''))
   \<and> fst (exists browser (js ''/docs'') None
         \<lparr>rootDirectory = Some [], entries = [([js ''docs''], Directory)]\<rparr>)
       = Promise (Inr False)"
proof -
  let ?s = "\<lparr>rootDirectory = Some [], entries = [([js ''docs''], Directory)]\<rparr>"
  have a: "rootDirectory ?s = None \<or> rootDirectory ?s = Some []" by simp
  have b: "is_directory (entries ?s) (segments (js ''/docs''))"
    by (simp add: is_directory_def segments_def slash_def js_def)
  show ?thesis
    using a b exists_false_for_directory [OF a b, of browser "quiet 0"] by blast
qed

end
